theory Spec2Isabelle
  imports Complex_Main "HOL-Library.Word" "HOL-Library.Multiset"
begin

unbundle bit_operations_syntax

chapter \<open>The model\<close>

section \<open>The scripting engine's value space\<close>

text \<open>
  The bridge in \<^verbatim>\<open>gumv8value.cpp\<close> sees engine values only through the engine's
  interface: type tests (\<^verbatim>\<open>IsString\<close>, \<^verbatim>\<open>IsNumber\<close>, ...), template membership
  (\<^verbatim>\<open>HasInstance\<close>), internal fields and property reads. The datatype below is the
  value space as far as those operations can tell values apart.

  A double is its mathematical value, or one of the three special values. A string is
  the byte sequence \<^verbatim>\<open>String::Utf8Value\<close> yields. Pointers and \<^verbatim>\<open>gsize\<close> are 64 bits
  wide. An array is its element slots; a slot is \<open>None\<close> when reading it throws
  (\<^verbatim>\<open>Get (...).ToLocal\<close> fails). A plain object is its property list; a property is
  \<open>None\<close> when reading it throws. The wrapper classes the bridge registers (Int64,
  UInt64, NativePointer, CpuContext, MatchPattern) carry their internal fields.
\<close>

datatype js_number = NaN | PosInfinity | NegInfinity | Finite rat

datatype v8_value =
    Undefined
  | Null
  | Boolean bool
  | Number js_number
  | BigInt int
  | String string
  | Symbol
  | External "64 word"
  | Function nat
  | Array "v8_value option list"
  | ArrayBuffer "8 word list"
  | ArrayBufferView "8 word list"
  | Int64 "64 word"
  | UInt64 "64 word"
  | NativePointer "64 word"
  | CpuContext nat bool
  | MatchPattern nat
  | Object "(string \<times> v8_value option) list"

text \<open>
  A \<^verbatim>\<open>const gchar *\<close> view of a byte sequence ends at the first NUL byte.
\<close>

definition c_str :: "string \<Rightarrow> string" where
  "c_str s = takeWhile (\<lambda>c. c \<noteq> CHR 0x00) s"

section \<open>Failures\<close>

text \<open>
  A conversion that fails has thrown an exception into the engine; the model keeps the
  message it was thrown with. Two more ways of not returning a value are kept apart
  from it: the process aborts (\<^verbatim>\<open>g_assert_not_reached\<close>, the engine's checked
  accessors \<^verbatim>\<open>ToLocalChecked\<close> and \<^verbatim>\<open>FromJust\<close> on an empty result), and the C++ has no
  defined behaviour (a double converted to an integer type that cannot hold it, a
  malformed format string, a reference taken on an object that is not live). An
  exception raised by script the engine ran on the way (a property getter) is pending
  like a thrown one; its message is the script's.
\<close>

datatype failure = Throw string | Script_exception | Abort | Undefined_behaviour

text \<open>The error taxonomy of the specification, over the messages the code throws.\<close>

datatype error_kind =
    MissingArgument | ExpectedType | ExpectedInteger | ExpectedPointer
  | InvalidNumericString | UnsupportedDataValue | InvalidPattern

definition error_kind_of :: "string \<Rightarrow> error_kind option" where
  "error_kind_of m =
     (if m = ''missing argument'' then Some MissingArgument
      else if m \<in> set [''expected a number'', ''expected a boolean'', ''expected a string'',
                       ''expected an object'', ''expected an array'', ''expected a function'',
                       ''expected an external pointer'', ''expected a callback value'',
                       ''expected an object containing callbacks'',
                       ''expected a CpuContext object'', ''expected a range object'',
                       ''expected a range object or an array of range objects'',
                       ''range object has an invalid or missing size property'',
                       ''expected either a pattern string or a MatchPattern object'',
                       ''expected a string specifying memory protection'',
                       ''invalid character in memory protection specifier string'']
        then Some ExpectedType
      else if m \<in> set [''expected an integer'', ''expected an unsigned integer'']
        then Some ExpectedInteger
      else if m = ''expected a pointer'' then Some ExpectedPointer
      else if m \<in> set [''invalid hexadecimal string'', ''invalid decimal string'']
        then Some InvalidNumericString
      else if m = ''unsupported data value'' then Some UnsupportedDataValue
      else if m = ''invalid match pattern'' then Some InvalidPattern
      else None)"

section \<open>Page protection\<close>

text \<open>
  \<^verbatim>\<open>GumPageProtection\<close> is a \<^verbatim>\<open>guint\<close> flag set; the bit values are those of
  \<^verbatim>\<open>gummemory.h\<close>.
\<close>

type_synonym GumPageProtection = "32 word"

definition GUM_PAGE_NO_ACCESS :: GumPageProtection where "GUM_PAGE_NO_ACCESS = 0"
definition GUM_PAGE_READ :: GumPageProtection where "GUM_PAGE_READ = 1"
definition GUM_PAGE_WRITE :: GumPageProtection where "GUM_PAGE_WRITE = 2"
definition GUM_PAGE_EXECUTE :: GumPageProtection where "GUM_PAGE_EXECUTE = 4"

text \<open>
  \<^verbatim>\<open>_gum_v8_page_protection_new\<close>: starts from \<^verbatim>\<open>"---"\<close> and overwrites one
  position per flag that is set.
\<close>

definition gum_v8_page_protection_new :: "GumPageProtection \<Rightarrow> string" where
  "gum_v8_page_protection_new prot =
     [if prot AND GUM_PAGE_READ \<noteq> 0 then CHR ''r'' else CHR ''-'',
      if prot AND GUM_PAGE_WRITE \<noteq> 0 then CHR ''w'' else CHR ''-'',
      if prot AND GUM_PAGE_EXECUTE \<noteq> 0 then CHR ''x'' else CHR ''-'']"

text \<open>
  The loop of \<^verbatim>\<open>_gum_v8_page_protection_get\<close> over the characters of the string:
  each of r, w, x sets its flag, a dash is skipped, any other character throws.
\<close>

fun page_protection_scan :: "string \<Rightarrow> GumPageProtection \<Rightarrow> failure + GumPageProtection" where
  "page_protection_scan [] prot = Inr prot"
| "page_protection_scan (ch # rest) prot =
     (if ch = CHR ''r'' then page_protection_scan rest (prot OR GUM_PAGE_READ)
      else if ch = CHR ''w'' then page_protection_scan rest (prot OR GUM_PAGE_WRITE)
      else if ch = CHR ''x'' then page_protection_scan rest (prot OR GUM_PAGE_EXECUTE)
      else if ch = CHR ''-'' then page_protection_scan rest prot
      else Inl (Throw ''invalid character in memory protection specifier string''))"

definition gum_v8_page_protection_get :: "v8_value \<Rightarrow> failure + GumPageProtection" where
  "gum_v8_page_protection_get prot_val =
     (case prot_val of
        String s \<Rightarrow> page_protection_scan (c_str s) GUM_PAGE_NO_ACCESS
      | _ \<Rightarrow> Inl (Throw ''expected a string specifying memory protection''))"

text \<open>
  The form the specification gives for a page-protection string: three characters,
  read, write, execute in that order, each its letter or a dash.
\<close>

definition is_protection_string :: "string \<Rightarrow> bool" where
  "is_protection_string s =
     (case s of
        [a, b, c] \<Rightarrow> (a = CHR ''r'' \<or> a = CHR ''-'') \<and> (b = CHR ''w'' \<or> b = CHR ''-'') \<and>
                     (c = CHR ''x'' \<or> c = CHR ''-'')
      | _ \<Rightarrow> False)"

definition is_protection_char :: "char \<Rightarrow> bool" where
  "is_protection_char ch = (ch = CHR ''r'' \<or> ch = CHR ''w'' \<or> ch = CHR ''x'' \<or> ch = CHR ''-'')"

text \<open>
  The flags named by the letters that occur in a text, wherever and however often they
  occur.
\<close>

definition letters_flags :: "string \<Rightarrow> GumPageProtection" where
  "letters_flags s =
     (if CHR ''r'' \<in> set s then GUM_PAGE_READ else 0) OR
     (if CHR ''w'' \<in> set s then GUM_PAGE_WRITE else 0) OR
     (if CHR ''x'' \<in> set s then GUM_PAGE_EXECUTE else 0)"

section \<open>Error message casing\<close>

text \<open>
  A native error message is UTF-8 text. It is modelled as its sequence of Unicode code
  points: \<^verbatim>\<open>g_utf8_get_char\<close> reads the first code point (the terminating NUL, code
  point 0, on the empty text), \<^verbatim>\<open>g_utf8_offset_to_pointer (m, 1)\<close> steps over it,
  \<^verbatim>\<open>g_utf8_strlen\<close> counts code points and \<^verbatim>\<open>strlen\<close> counts the bytes of the
  encoding.

  GLib classifies and maps code points with the Unicode character database. On ASCII
  the database is fixed and written out; beyond ASCII it is a parameter.
\<close>

type_synonym unichar = nat
type_synonym utf8_text = "unichar list"

record unicode_data =
  ud_isupper :: "unichar \<Rightarrow> bool"
  ud_tolower :: "unichar \<Rightarrow> unichar"
  ud_toupper :: "unichar \<Rightarrow> unichar"

definition g_unichar_isupper :: "unicode_data \<Rightarrow> unichar \<Rightarrow> bool" where
  "g_unichar_isupper ud c = (if c < 128 then 65 \<le> c \<and> c \<le> 90 else ud_isupper ud c)"

definition g_unichar_tolower :: "unicode_data \<Rightarrow> unichar \<Rightarrow> unichar" where
  "g_unichar_tolower ud c =
     (if c < 128 then (if 65 \<le> c \<and> c \<le> 90 then c + 32 else c) else ud_tolower ud c)"

definition g_unichar_toupper :: "unicode_data \<Rightarrow> unichar \<Rightarrow> unichar" where
  "g_unichar_toupper ud c =
     (if c < 128 then (if 97 \<le> c \<and> c \<le> 122 then c - 32 else c) else ud_toupper ud c)"

definition g_utf8_get_char :: "utf8_text \<Rightarrow> unichar" where
  "g_utf8_get_char m = (case m of [] \<Rightarrow> 0 | c # _ \<Rightarrow> c)"

definition utf8_length :: "unichar \<Rightarrow> nat" where
  "utf8_length c = (if c < 0x80 then 1 else if c < 0x800 then 2 else if c < 0x10000 then 3 else 4)"

definition strlen_utf8 :: "utf8_text \<Rightarrow> nat" where
  "strlen_utf8 m = sum_list (map utf8_length m)"

definition ascii :: "string \<Rightarrow> utf8_text" where
  "ascii s = map of_char s"

text \<open>
  \<^verbatim>\<open>_gum_v8_error_new_take_error\<close>. The argument is \<^verbatim>\<open>*error\<close>; the result is the
  message of the exception object built (\<open>None\<close> for the engine's null value) and
  \<^verbatim>\<open>*error\<close> after the call, which \<^verbatim>\<open>g_steal_pointer\<close> has cleared.

  On the empty message the else branch appends code point 0 and then whatever follows
  the terminator; the engine reads the buffer as a C string, which ends at that first
  NUL, so the exception message is empty.
\<close>

definition probably_starts_with_acronym :: "unicode_data \<Rightarrow> utf8_text \<Rightarrow> bool" where
  "probably_starts_with_acronym ud m =
     (g_unichar_isupper ud (g_utf8_get_char m) \<and>
      length m \<ge> 2 \<and>
      g_unichar_isupper ud (g_utf8_get_char (tl m)))"

definition gum_v8_error_new_take_error ::
  "unicode_data \<Rightarrow> utf8_text option \<Rightarrow> utf8_text option \<times> utf8_text option" where
  "gum_v8_error_new_take_error ud error =
     (case error of
        Some m \<Rightarrow>
          (let message =
             (if probably_starts_with_acronym ud m then m
              else (case m of
                      [] \<Rightarrow> []
                    | c # rest \<Rightarrow> g_unichar_tolower ud c # rest))
           in (Some message, None))
      | None \<Rightarrow> (None, None))"

text \<open>
  \<^verbatim>\<open>_gum_v8_error_get_message\<close>, from the text of the error object's \<^verbatim>\<open>message\<close>
  property on.
\<close>

definition gum_v8_error_get_message :: "unicode_data \<Rightarrow> utf8_text \<Rightarrow> utf8_text" where
  "gum_v8_error_get_message ud m =
     (let length = strlen_utf8 m;
          result = [];
          result = (if length \<ge> 1 then result @ [g_unichar_toupper ud (g_utf8_get_char m)]
                    else result);
          result = (if length \<ge> 2 then result @ tl m else result)
      in result)"

section \<open>Numbers\<close>

text \<open>Conversion of a double to an integer type discards the fractional part.\<close>

definition trunc :: "rat \<Rightarrow> int" where
  "trunc q = (if q < 0 then - \<lfloor>- q\<rfloor> else \<lfloor>q\<rfloor>)"

text \<open>
  The C++ conversions \<^verbatim>\<open>(gint64) d\<close> and \<^verbatim>\<open>(guint64) d\<close> of a double: defined only
  when the truncated value is representable.
\<close>

definition double_to_int64 :: "js_number \<Rightarrow> failure + 64 word" where
  "double_to_int64 d =
     (case d of
        Finite q \<Rightarrow>
          (if - (2 ^ 63) \<le> trunc q \<and> trunc q < 2 ^ 63 then Inr (word_of_int (trunc q))
           else Inl Undefined_behaviour)
      | _ \<Rightarrow> Inl Undefined_behaviour)"

definition double_to_uint64 :: "js_number \<Rightarrow> failure + 64 word" where
  "double_to_uint64 d =
     (case d of
        Finite q \<Rightarrow>
          (if 0 \<le> trunc q \<and> trunc q < 2 ^ 64 then Inr (word_of_int (trunc q))
           else Inl Undefined_behaviour)
      | _ \<Rightarrow> Inl Undefined_behaviour)"

text \<open>Comparison of a double with a constant: false on NaN.\<close>

definition double_ge :: "js_number \<Rightarrow> rat \<Rightarrow> bool" where
  "double_ge d k = (case d of NaN \<Rightarrow> False | PosInfinity \<Rightarrow> True | NegInfinity \<Rightarrow> False
                     | Finite q \<Rightarrow> q \<ge> k)"

definition double_le :: "js_number \<Rightarrow> rat \<Rightarrow> bool" where
  "double_le d k = (case d of NaN \<Rightarrow> False | PosInfinity \<Rightarrow> False | NegInfinity \<Rightarrow> True
                     | Finite q \<Rightarrow> q \<le> k)"

definition double_less :: "js_number \<Rightarrow> rat \<Rightarrow> bool" where
  "double_less d k = (case d of NaN \<Rightarrow> False | PosInfinity \<Rightarrow> False | NegInfinity \<Rightarrow> True
                       | Finite q \<Rightarrow> q < k)"

text \<open>
  The engine's \<^verbatim>\<open>IntegerValue\<close> of a number: NaN is 0, values beyond the 64-bit range
  saturate, the rest is truncated.
\<close>

definition IntegerValue :: "js_number \<Rightarrow> 64 word" where
  "IntegerValue d =
     (case d of
        NaN \<Rightarrow> 0
      | PosInfinity \<Rightarrow> word_of_int (2 ^ 63 - 1)
      | NegInfinity \<Rightarrow> word_of_int (- (2 ^ 63))
      | Finite q \<Rightarrow>
          (if q \<ge> 2 ^ 63 then word_of_int (2 ^ 63 - 1)
           else if q \<le> - (2 ^ 63) then word_of_int (- (2 ^ 63))
           else word_of_int (trunc q)))"

text \<open>
  The engine's \<^verbatim>\<open>BigInt::Int64Value\<close> and \<^verbatim>\<open>BigInt::Uint64Value\<close>: the low 64 bits,
  and whether the value fits.
\<close>

definition BigInt_Int64Value :: "int \<Rightarrow> 64 word \<times> bool" where
  "BigInt_Int64Value v = (word_of_int v, - (2 ^ 63) \<le> v \<and> v < 2 ^ 63)"

definition BigInt_Uint64Value :: "int \<Rightarrow> 64 word \<times> bool" where
  "BigInt_Uint64Value v = (word_of_int v, 0 \<le> v \<and> v < 2 ^ 64)"

definition G_MININT :: int where "G_MININT = - (2 ^ 31)"
definition G_MAXINT :: int where "G_MAXINT = 2 ^ 31 - 1"
definition G_MAXUINT :: int where "G_MAXUINT = 2 ^ 32 - 1"

section \<open>Numeric text\<close>

text \<open>
  \<^verbatim>\<open>g_ascii_strtoull\<close> and \<^verbatim>\<open>g_ascii_strtoll\<close> are GLib's; both run
  \<^verbatim>\<open>g_parse_long_long\<close>, which behaves as \<^verbatim>\<open>strtol\<close> does in the C locale: it skips
  white space, takes one optional sign, for base 16 one optional \<^verbatim>\<open>0x\<close> or \<^verbatim>\<open>0X\<close>, then
  the longest run of digits of the base, and reports through \<^verbatim>\<open>endptr\<close> where it
  stopped. The model returns \<^verbatim>\<open>endptr\<close> as an offset from the start of the text.
\<close>

definition ISSPACE :: "char \<Rightarrow> bool" where
  "ISSPACE c = (c = CHR 0x20 \<or> c = CHR 0x0C \<or> c = CHR 0x0A \<or> c = CHR 0x0D \<or> c = CHR 0x09 \<or>
                c = CHR 0x0B)"

definition digit_value :: "char \<Rightarrow> nat option" where
  "digit_value c =
     (let n = (of_char c :: nat) in
      if 48 \<le> n \<and> n \<le> 57 then Some (n - 48)
      else if 65 \<le> n \<and> n \<le> 90 then Some (n - 65 + 10)
      else if 97 \<le> n \<and> n \<le> 122 then Some (n - 97 + 10)
      else None)"

definition G_MAXUINT64 :: nat where "G_MAXUINT64 = 2 ^ 64 - 1"

text \<open>
  The digit loop: the value so far, whether it has overflowed, and the number of
  characters taken.
\<close>

fun parse_digits :: "nat \<Rightarrow> string \<Rightarrow> nat \<Rightarrow> bool \<Rightarrow> nat \<Rightarrow> nat \<times> bool \<times> nat" where
  "parse_digits base [] ui64 overflow n = (ui64, overflow, n)"
| "parse_digits base (c # s) ui64 overflow n =
     (case digit_value c of
        None \<Rightarrow> (ui64, overflow, n)
      | Some d \<Rightarrow>
          if d \<ge> base then (ui64, overflow, n)
          else if ui64 > G_MAXUINT64 div base \<or>
                  (ui64 = G_MAXUINT64 div base \<and> d > G_MAXUINT64 mod base)
            then parse_digits base s ui64 True (n + 1)
            else parse_digits base s (ui64 * base + d) overflow (n + 1))"

definition has_hex_prefix :: "string \<Rightarrow> bool" where
  "has_hex_prefix s =
     (case s of a # b # _ \<Rightarrow> a = CHR ''0'' \<and> (b = CHR ''x'' \<or> b = CHR ''X'') | _ \<Rightarrow> False)"

text \<open>The result: the magnitude, the sign seen, and the offset of \<^verbatim>\<open>endptr\<close>.\<close>

definition g_parse_long_long :: "string \<Rightarrow> nat \<Rightarrow> nat \<times> bool \<times> nat" where
  "g_parse_long_long nptr base =
     (let ws = length (takeWhile ISSPACE nptr);
          s = drop ws nptr
      in if s = [] then (0, False, 0)
         else
           let negative = (hd s = CHR ''-'');
               sgn = (if hd s = CHR ''-'' \<or> hd s = CHR ''+'' then 1 else 0);
               s1 = drop sgn s;
               pfx = (if base = 16 \<and> has_hex_prefix s1 then 2 else 0);
               save = drop pfx s1;
               (ui64, overflow, n) = parse_digits base save 0 False 0
           in if n = 0 then (0, negative, if pfx = 2 then ws + sgn + 1 else 0)
              else (if overflow then G_MAXUINT64 else ui64, negative, ws + sgn + pfx + n))"

definition g_ascii_strtoull :: "string \<Rightarrow> nat \<Rightarrow> 64 word \<times> nat" where
  "g_ascii_strtoull nptr base =
     (let (result, negative, endptr) = g_parse_long_long nptr base
      in (if negative then - word_of_nat result else word_of_nat result, endptr))"

definition g_ascii_strtoll :: "string \<Rightarrow> nat \<Rightarrow> 64 word \<times> nat" where
  "g_ascii_strtoll nptr base =
     (let (result, negative, endptr) = g_parse_long_long nptr base
      in (if negative \<and> result > 2 ^ 63 then word_of_int (- (2 ^ 63))
          else if \<not> negative \<and> result > 2 ^ 63 - 1 then word_of_int (2 ^ 63 - 1)
          else if negative then - word_of_nat result
          else word_of_nat result, endptr))"

definition g_str_has_prefix :: "string \<Rightarrow> string \<Rightarrow> bool" where
  "g_str_has_prefix str prefix = (take (length prefix) str = prefix)"

section \<open>Numeric and pointer marshalling\<close>

text \<open>\<^verbatim>\<open>_gum_v8_int_get\<close> and \<^verbatim>\<open>_gum_v8_uint_get\<close>.\<close>

definition gum_v8_int_get :: "v8_value \<Rightarrow> failure + 32 word" where
  "gum_v8_int_get val =
     (case val of
        Number v \<Rightarrow>
          (if double_ge v (of_int G_MININT) \<and> double_le v (of_int G_MAXINT)
           then (case v of Finite q \<Rightarrow> Inr (word_of_int (trunc q))
                 | _ \<Rightarrow> Inl (Throw ''expected an integer''))
           else Inl (Throw ''expected an integer''))
      | BigInt b \<Rightarrow>
          (let (v, lossless) = BigInt_Int64Value b
           in if lossless \<and> sint v \<ge> G_MININT \<and> sint v \<le> G_MAXINT
              then Inr (ucast v)
              else Inl (Throw ''expected an integer''))
      | _ \<Rightarrow> Inl (Throw ''expected an integer''))"

definition gum_v8_uint_get :: "v8_value \<Rightarrow> failure + 32 word" where
  "gum_v8_uint_get val =
     (case val of
        Number v \<Rightarrow>
          (if double_ge v 0 \<and> double_le v (of_int G_MAXUINT)
           then (case v of Finite q \<Rightarrow> Inr (word_of_int (trunc q))
                 | _ \<Rightarrow> Inl (Throw ''expected an unsigned integer''))
           else Inl (Throw ''expected an unsigned integer''))
      | BigInt b \<Rightarrow>
          (let (v, lossless) = BigInt_Uint64Value b
           in if lossless \<and> uint v \<le> G_MAXUINT
              then Inr (ucast v)
              else Inl (Throw ''expected an unsigned integer''))
      | _ \<Rightarrow> Inl (Throw ''expected an unsigned integer''))"

text \<open>\<^verbatim>\<open>_gum_v8_int64_get\<close> and \<^verbatim>\<open>_gum_v8_int64_parse\<close>.\<close>

definition gum_v8_int64_get :: "v8_value \<Rightarrow> failure + 64 word" where
  "gum_v8_int64_get val =
     (case val of
        Number v \<Rightarrow> Inr (IntegerValue v)
      | BigInt b \<Rightarrow>
          (let (i, lossless) = BigInt_Int64Value b
           in if lossless then Inr i else Inl (Throw ''expected an integer''))
      | Int64 i \<Rightarrow> Inr i
      | _ \<Rightarrow> Inl (Throw ''expected an integer''))"

definition gum_v8_int64_parse :: "v8_value \<Rightarrow> failure + 64 word" where
  "gum_v8_int64_parse val =
     (case val of
        String utf8 \<Rightarrow>
          (let value_as_string = c_str utf8 in
           if g_str_has_prefix value_as_string ''0x'' then
             (let (i, endp) = g_ascii_strtoll (drop 2 value_as_string) 16
              in if endp = 0 then Inl (Throw ''invalid hexadecimal string'') else Inr i)
           else
             (let (i, endp) = g_ascii_strtoll value_as_string 10
              in if endp = 0 then Inl (Throw ''invalid hexadecimal string'') else Inr i))
      | _ \<Rightarrow> gum_v8_int64_get val)"

text \<open>\<^verbatim>\<open>_gum_v8_uint64_get\<close> and \<^verbatim>\<open>_gum_v8_uint64_parse\<close>.\<close>

definition gum_v8_uint64_get :: "v8_value \<Rightarrow> failure + 64 word" where
  "gum_v8_uint64_get val =
     (case val of
        Number v \<Rightarrow>
          (if double_ge v 0 then double_to_uint64 v
           else Inl (Throw ''expected an unsigned integer''))
      | BigInt b \<Rightarrow>
          (let (u, lossless) = BigInt_Uint64Value b
           in if lossless then Inr u else Inl (Throw ''expected an unsigned integer''))
      | UInt64 u \<Rightarrow> Inr u
      | _ \<Rightarrow> Inl (Throw ''expected an unsigned integer''))"

definition gum_v8_uint64_parse :: "v8_value \<Rightarrow> failure + 64 word" where
  "gum_v8_uint64_parse val =
     (case val of
        String utf8 \<Rightarrow>
          (let value_as_string = c_str utf8 in
           if g_str_has_prefix value_as_string ''0x'' then
             (let (u, endp) = g_ascii_strtoull (drop 2 value_as_string) 16
              in if endp = 0 then Inl (Throw ''invalid hexadecimal string'') else Inr u)
           else
             (let (u, endp) = g_ascii_strtoull value_as_string 10
              in if endp = 0 then Inl (Throw ''invalid hexadecimal string'') else Inr u))
      | _ \<Rightarrow> gum_v8_uint64_get val)"

text \<open>\<^verbatim>\<open>_gum_v8_size_get\<close> and \<^verbatim>\<open>_gum_v8_ssize_get\<close>, with a 64-bit \<^verbatim>\<open>gsize\<close>.\<close>

definition gum_v8_size_get :: "v8_value \<Rightarrow> failure + 64 word" where
  "gum_v8_size_get val =
     (case val of
        Number v \<Rightarrow>
          (if double_ge v 0 then double_to_uint64 v
           else Inl (Throw ''expected an unsigned integer''))
      | BigInt b \<Rightarrow>
          (let (v, lossless) = BigInt_Uint64Value b
           in if lossless \<and> uint v \<le> 2 ^ 64 - 1 then Inr v
              else Inl (Throw ''expected an unsigned integer''))
      | UInt64 u \<Rightarrow> Inr u
      | Int64 i \<Rightarrow>
          (if sint i \<ge> 0 then Inr i else Inl (Throw ''expected an unsigned integer''))
      | _ \<Rightarrow> Inl (Throw ''expected an unsigned integer''))"

definition gum_v8_ssize_get :: "v8_value \<Rightarrow> failure + 64 word" where
  "gum_v8_ssize_get val =
     (case val of
        Number v \<Rightarrow> Inr (IntegerValue v)
      | BigInt b \<Rightarrow>
          (let (v, lossless) = BigInt_Int64Value b
           in if lossless \<and> sint v \<ge> - (2 ^ 63) \<and> sint v \<le> 2 ^ 63 - 1 then Inr v
              else Inl (Throw ''expected an integer''))
      | Int64 i \<Rightarrow> Inr i
      | UInt64 u \<Rightarrow> Inr u
      | _ \<Rightarrow> Inl (Throw ''expected an integer''))"

text \<open>
  Property reads. \<^verbatim>\<open>ToObject\<close> throws on undefined and null and wraps every other
  value; only a plain object has properties in the model. \<^verbatim>\<open>Get\<close> of a property that
  is not there yields undefined.
\<close>

definition ToObject :: "v8_value \<Rightarrow> v8_value option" where
  "ToObject val = (case val of Undefined \<Rightarrow> None | Null \<Rightarrow> None | _ \<Rightarrow> Some val)"

definition properties :: "v8_value \<Rightarrow> (string \<times> v8_value option) list" where
  "properties obj = (case obj of Object props \<Rightarrow> props | _ \<Rightarrow> [])"

definition Has :: "v8_value \<Rightarrow> string \<Rightarrow> bool" where
  "Has obj key = (map_of (properties obj) key \<noteq> None)"

definition Get :: "v8_value \<Rightarrow> string \<Rightarrow> v8_value option" where
  "Get obj key = (case map_of (properties obj) key of None \<Rightarrow> Some Undefined | Some r \<Rightarrow> r)"

text \<open>\<^verbatim>\<open>_gum_v8_native_pointer_get\<close> and \<^verbatim>\<open>_gum_v8_native_pointer_parse\<close>.\<close>

definition gum_v8_native_pointer_get :: "v8_value \<Rightarrow> failure + 64 word" where
  "gum_v8_native_pointer_get val =
     (case val of
        NativePointer p \<Rightarrow> Inr p
      | _ \<Rightarrow>
          (case ToObject val of
             None \<Rightarrow> Inl (Throw ''expected a pointer'')
           | Some obj \<Rightarrow>
               if Has obj ''handle'' then
                 (case Get obj ''handle'' of
                    None \<Rightarrow> Inl Abort
                  | Some (NativePointer p) \<Rightarrow> Inr p
                  | Some _ \<Rightarrow> Inl (Throw ''expected a pointer''))
               else Inl (Throw ''expected a pointer'')))"

definition gum_v8_native_pointer_parse :: "v8_value \<Rightarrow> failure + 64 word" where
  "gum_v8_native_pointer_parse val =
     (case val of
        String utf8 \<Rightarrow>
          (let ptr_as_string = c_str utf8 in
           if g_str_has_prefix ptr_as_string ''0x'' then
             (let (p, endptr) = g_ascii_strtoull (drop 2 ptr_as_string) 16
              in if endptr = 0 then Inl (Throw ''invalid hexadecimal string'') else Inr p)
           else
             (let (p, endptr) = g_ascii_strtoull ptr_as_string 10
              in if endptr = 0 then Inl (Throw ''invalid decimal string'') else Inr p))
      | Number number \<Rightarrow>
          (if double_less number 0 then double_to_int64 number
           else double_to_uint64 number)
      | BigInt b \<Rightarrow> Inr (fst (BigInt_Uint64Value b))
      | UInt64 u \<Rightarrow> Inr u
      | Int64 i \<Rightarrow> Inr i
      | _ \<Rightarrow> gum_v8_native_pointer_get val)"

text \<open>
  When the fuzzy parses accept a text, stated without the scanner: after white space
  and one optional sign, the next character is a digit of the base. A text that begins
  with \<^verbatim>\<open>0x\<close> is read in base 16 from its third character on, any other in base 10.
\<close>

definition is_digit_of :: "nat \<Rightarrow> char \<Rightarrow> bool" where
  "is_digit_of base c = (case digit_value c of None \<Rightarrow> False | Some d \<Rightarrow> d < base)"

definition skip_sign :: "string \<Rightarrow> string" where
  "skip_sign s = (case s of [] \<Rightarrow> [] | c # r \<Rightarrow> if c = CHR ''-'' \<or> c = CHR ''+'' then r else s)"

definition starts_number :: "nat \<Rightarrow> string \<Rightarrow> bool" where
  "starts_number base t =
     (case skip_sign (dropWhile ISSPACE t) of [] \<Rightarrow> False | c # _ \<Rightarrow> is_digit_of base c)"

definition numeric_text :: "string \<Rightarrow> bool" where
  "numeric_text t =
     (if g_str_has_prefix t ''0x'' then starts_number 16 (drop 2 t) else starts_number 10 t)"








definition text_base :: "string \<Rightarrow> nat" where
  "text_base t = (if g_str_has_prefix t ''0x'' then 16 else 10)"

definition text_digits :: "string \<Rightarrow> string" where
  "text_digits t = (if g_str_has_prefix t ''0x'' then drop 2 t else t)"

section \<open>The engine's numeric coercion\<close>

text \<open>
  \<^verbatim>\<open>Value::Uint32Value\<close> is the engine's: ECMAScript's ToNumber followed by ToUint32.
  ToNumber is fixed by the language on undefined, null, booleans and numbers, and
  throws on symbols and arbitrary-precision integers. On strings it parses a numeric
  literal, and on objects it runs script (\<^verbatim>\<open>valueOf\<close>, \<^verbatim>\<open>toString\<close>) that may throw;
  these two are parameters of the model.
\<close>

record js_engine =
  string_to_number :: "string \<Rightarrow> js_number"
  object_to_number :: "v8_value \<Rightarrow> js_number option"

definition ToNumber :: "js_engine \<Rightarrow> v8_value \<Rightarrow> js_number option" where
  "ToNumber eng val =
     (case val of
        Undefined \<Rightarrow> Some NaN
      | Null \<Rightarrow> Some (Finite 0)
      | Boolean b \<Rightarrow> Some (Finite (if b then 1 else 0))
      | Number d \<Rightarrow> Some d
      | String s \<Rightarrow> Some (string_to_number eng s)
      | Symbol \<Rightarrow> None
      | BigInt _ \<Rightarrow> None
      | _ \<Rightarrow> object_to_number eng val)"

definition ToUint32 :: "js_number \<Rightarrow> 32 word" where
  "ToUint32 d = (case d of Finite q \<Rightarrow> word_of_int (trunc q) | _ \<Rightarrow> 0)"

definition Uint32Value :: "js_engine \<Rightarrow> v8_value \<Rightarrow> 32 word option" where
  "Uint32Value eng val = map_option ToUint32 (ToNumber eng val)"

section \<open>Byte buffers\<close>

definition GUM_MAX_SEND_ARRAY_LENGTH :: nat where
  "GUM_MAX_SEND_ARRAY_LENGTH = 1024 * 1024"

text \<open>
  The element loop of \<^verbatim>\<open>_gum_v8_bytes_try_get\<close>: \<open>data\<close> is the prefix of the buffer
  filled so far. The loop ends at the first element that is not valid, and the buffer
  is then freed. The assignment \<^verbatim>\<open>data[i] = element.FromJust ()\<close> stores a 32-bit value
  in a \<^verbatim>\<open>guint8\<close>.
\<close>

fun bytes_from_array :: "js_engine \<Rightarrow> v8_value option list \<Rightarrow> 8 word list \<Rightarrow> 8 word list option" where
  "bytes_from_array eng [] data = Some data"
| "bytes_from_array eng (slot # rest) data =
     (case slot of
        None \<Rightarrow> None
      | Some element_value \<Rightarrow>
          (case Uint32Value eng element_value of
             None \<Rightarrow> None
           | Some element \<Rightarrow> bytes_from_array eng rest (data @ [ucast element])))"

text \<open>
  \<^verbatim>\<open>_gum_v8_bytes_try_get\<close>, \<^verbatim>\<open>_gum_v8_bytes_get\<close> and \<^verbatim>\<open>_gum_v8_bytes_parse\<close>. The
  result is the contents of the \<^verbatim>\<open>GBytes\<close> returned, \<open>None\<close> for \<^verbatim>\<open>NULL\<close>.
\<close>

definition gum_v8_bytes_try_get :: "js_engine \<Rightarrow> v8_value \<Rightarrow> 8 word list option" where
  "gum_v8_bytes_try_get eng val =
     (case val of
        ArrayBuffer store \<Rightarrow> Some store
      | ArrayBufferView view \<Rightarrow> Some view
      | Array array \<Rightarrow>
          (let data_length = length array in
           if data_length > GUM_MAX_SEND_ARRAY_LENGTH then None
           else bytes_from_array eng array [])
      | _ \<Rightarrow> None)"

definition gum_v8_bytes_get :: "js_engine \<Rightarrow> v8_value \<Rightarrow> failure + 8 word list" where
  "gum_v8_bytes_get eng val =
     (case gum_v8_bytes_try_get eng val of
        None \<Rightarrow> Inl (Throw ''unsupported data value'')
      | Some result \<Rightarrow> Inr result)"

definition gum_v8_bytes_parse :: "js_engine \<Rightarrow> v8_value \<Rightarrow> failure + 8 word list" where
  "gum_v8_bytes_parse eng val =
     (case val of
        String utf8 \<Rightarrow> Inr (map of_char (c_str utf8))
      | _ \<Rightarrow> gum_v8_bytes_get eng val)"

section \<open>Native resources\<close>

text \<open>
  The part of the runtime a native resource touches: the isolate's counter of external
  memory (a 64-bit integer, adjusted by \<^verbatim>\<open>AdjustAmountOfExternalAllocatedMemory\<close>), the
  persistent handles with their weak callbacks, the slice allocator that holds the
  \<^verbatim>\<open>GumV8NativeResource\<close> records, the tracking set \<^verbatim>\<open>core->native_resources\<close>, and the
  destructor callbacks that have run, in order, each with its argument.

  The tracking set is a \<^verbatim>\<open>GHashTable\<close> used as a set of record pointers. The table is
  created outside this file; the key destructor it was created with is a field of the
  model (\<open>True\<close> when it is \<^verbatim>\<open>_gum_v8_native_resource_free\<close>, \<open>False\<close> when there is
  none).
\<close>

record GumV8NativeResource =
  res_instance :: nat
  res_data :: "64 word"
  res_size :: "64 word"
  res_notify :: "nat option"

record resource_core =
  external_memory :: "64 word"
  weak_handles :: "nat \<rightharpoonup> nat"
  next_handle :: nat
  slices :: "nat \<rightharpoonup> GumV8NativeResource"
  next_slice :: nat
  native_resources :: "nat set"
  key_destroy_is_resource_free :: bool
  notified :: "(nat \<times> 64 word) list"

text \<open>
  \<^verbatim>\<open>_gum_v8_native_resource_new\<close>: a record from the slice allocator, a new persistent
  handle on a fresh pointer object made weak with the record as parameter, the counter
  raised by \<^verbatim>\<open>size\<close>, the record added to the set.
\<close>

definition gum_v8_native_resource_new ::
  "64 word \<Rightarrow> 64 word \<Rightarrow> nat option \<Rightarrow> resource_core \<Rightarrow> nat \<times> resource_core" where
  "gum_v8_native_resource_new data size' notify core =
     (let resource = next_slice core;
          instance = next_handle core;
          core = core\<lparr>next_slice := Suc resource, next_handle := Suc instance\<rparr>;
          core = core\<lparr>weak_handles := (weak_handles core)(instance \<mapsto> resource)\<rparr>;
          core = core\<lparr>slices := (slices core)(resource \<mapsto>
                   \<lparr>res_instance = instance, res_data = data, res_size = size',
                    res_notify = notify\<rparr>)\<rparr>;
          core = core\<lparr>external_memory := external_memory core + size'\<rparr>;
          core = core\<lparr>native_resources := insert resource (native_resources core)\<rparr>
      in (resource, core))"

text \<open>
  \<^verbatim>\<open>_gum_v8_native_resource_free\<close>: the counter lowered by \<^verbatim>\<open>size\<close>, the handle deleted,
  the destructor called on \<^verbatim>\<open>data\<close> when there is one, the record returned to the
  allocator. A pointer that is no live record is left alone.
\<close>

definition gum_v8_native_resource_free :: "nat \<Rightarrow> resource_core \<Rightarrow> resource_core" where
  "gum_v8_native_resource_free resource core =
     (case slices core resource of
        None \<Rightarrow> core
      | Some r \<Rightarrow>
          (let core = core\<lparr>external_memory := external_memory core + - res_size r\<rparr>;
               core = core\<lparr>weak_handles := (weak_handles core)(res_instance r := None)\<rparr>;
               core = (case res_notify r of
                         None \<Rightarrow> core
                       | Some cb \<Rightarrow> core\<lparr>notified := notified core @ [(cb, res_data r)]\<rparr>)
           in core\<lparr>slices := (slices core)(resource := None)\<rparr>))"

text \<open>
  \<^verbatim>\<open>g_hash_table_remove\<close> on the tracking set: a key that is present is removed and
  handed to the key destructor; a key that is absent changes nothing.
\<close>

definition g_hash_table_remove_native_resource :: "nat \<Rightarrow> resource_core \<Rightarrow> resource_core" where
  "g_hash_table_remove_native_resource key core =
     (if key \<in> native_resources core then
        (let core = core\<lparr>native_resources := native_resources core - {key}\<rparr>
         in if key_destroy_is_resource_free core then gum_v8_native_resource_free key core
            else core)
      else core)"

definition gum_v8_native_resource_on_weak_notify :: "nat \<Rightarrow> resource_core \<Rightarrow> resource_core" where
  "gum_v8_native_resource_on_weak_notify self core =
     g_hash_table_remove_native_resource self core"

text \<open>
  The engine finalizing a handle it found unreachable: it calls the weak callback the
  handle was registered with, if the handle still exists.
\<close>

definition finalize_native_resource_handle :: "nat \<Rightarrow> resource_core \<Rightarrow> resource_core" where
  "finalize_native_resource_handle h core =
     (case weak_handles core h of
        None \<Rightarrow> core
      | Some self \<Rightarrow> gum_v8_native_resource_on_weak_notify self core)"

text \<open>
  What the allocators guarantee: a pointer or handle they have not yet given out is in
  no table.
\<close>

definition resource_core_ok :: "resource_core \<Rightarrow> bool" where
  "resource_core_ok core =
     ((\<forall>r. r \<ge> next_slice core \<longrightarrow> slices core r = None \<and> r \<notin> native_resources core) \<and>
      (\<forall>h. h \<ge> next_handle core \<longrightarrow> weak_handles core h = None))"

definition empty_resource_core :: resource_core where
  "empty_resource_core =
     \<lparr>external_memory = 0, weak_handles = Map.empty, next_handle = 0, slices = Map.empty,
      next_slice = 0, native_resources = {}, key_destroy_is_resource_free = True,
      notified = []\<rparr>"

section \<open>CPU contexts\<close>

text \<open>
  A \<^verbatim>\<open>GumCpuContext\<close> is a structure of registers. Native memory maps an address to
  the structure stored there. A CpuContext object of the engine has two internal
  fields, the address of a structure and the mutable flag; objects are mutated in
  place, so they live in a store. A persistent handle refers to an object.
\<close>

type_synonym GumCpuContext = "nat \<Rightarrow> 64 word"

record GumCpuContextWrapper =
  wrapper_instance :: nat
  wrapper_cpu_context :: nat

record cpu_state =
  memory :: "nat \<rightharpoonup> GumCpuContext"
  next_address :: nat
  objects :: "nat \<rightharpoonup> nat \<times> bool"
  globals :: "nat \<rightharpoonup> nat"
  weak :: "nat \<rightharpoonup> nat"
  wrappers :: "nat \<rightharpoonup> GumCpuContextWrapper"
  next_wrapper :: nat
  freed :: "nat list"

text \<open>
  \<^verbatim>\<open>_gum_v8_cpu_context_free_later\<close>. The handle must refer to a CpuContext object whose
  pointer field is the address of a structure; otherwise the C++ reads through a bad
  pointer and nothing is said about the outcome (\<open>None\<close>).
\<close>

definition gum_v8_cpu_context_free_later :: "nat \<Rightarrow> cpu_state \<Rightarrow> cpu_state option" where
  "gum_v8_cpu_context_free_later cpu_context st =
     (case globals st cpu_context of
        None \<Rightarrow> None
      | Some instance \<Rightarrow>
          (case objects st instance of
             None \<Rightarrow> None
           | Some (original, _) \<Rightarrow>
               (case memory st original of
                  None \<Rightarrow> None
                | Some contents \<Rightarrow>
                    (let copy = next_address st;
                         st = st\<lparr>memory := (memory st)(copy \<mapsto> contents),
                                 next_address := Suc copy\<rparr>;
                         st = st\<lparr>objects := (objects st)(instance \<mapsto> (copy, False))\<rparr>;
                         wrapper = next_wrapper st;
                         st = st\<lparr>wrappers := (wrappers st)(wrapper \<mapsto>
                                   \<lparr>wrapper_instance = cpu_context, wrapper_cpu_context = copy\<rparr>),
                                 next_wrapper := Suc wrapper\<rparr>
                     in Some (st\<lparr>weak := (weak st)(cpu_context \<mapsto> wrapper)\<rparr>)))))"

text \<open>
  \<^verbatim>\<open>gum_cpu_context_on_weak_notify\<close>: deletes the handle, frees the copy, frees the
  wrapper.
\<close>

definition gum_cpu_context_on_weak_notify :: "nat \<Rightarrow> cpu_state \<Rightarrow> cpu_state" where
  "gum_cpu_context_on_weak_notify wrapper st =
     (case wrappers st wrapper of
        None \<Rightarrow> st
      | Some w \<Rightarrow>
          (let st = st\<lparr>globals := (globals st)(wrapper_instance w := None),
                       weak := (weak st)(wrapper_instance w := None)\<rparr>;
               st = st\<lparr>memory := (memory st)(wrapper_cpu_context w := None),
                       freed := freed st @ [wrapper_cpu_context w]\<rparr>
           in st\<lparr>wrappers := (wrappers st)(wrapper := None)\<rparr>))"

definition finalize_cpu_context_handle :: "nat \<Rightarrow> cpu_state \<Rightarrow> cpu_state" where
  "finalize_cpu_context_handle h st =
     (case weak st h of
        None \<Rightarrow> st
      | Some wrapper \<Rightarrow> gum_cpu_context_on_weak_notify wrapper st)"

text \<open>
  Reading a register through a CpuContext object: the structure at the address in the
  object's pointer field (\<^verbatim>\<open>GUMJS_CPU_CONTEXT_VALUE\<close>, as \<^verbatim>\<open>_gum_v8_cpu_context_get\<close>
  returns it).
\<close>

definition cpu_context_read :: "cpu_state \<Rightarrow> nat \<Rightarrow> nat \<Rightarrow> 64 word option" where
  "cpu_context_read st instance reg =
     (case objects st instance of
        None \<Rightarrow> None
      | Some (address, _) \<Rightarrow> map_option (\<lambda>contents. contents reg) (memory st address))"

text \<open>The instrumentation engine overwriting, or releasing, a structure it owns.\<close>

definition native_write :: "nat \<Rightarrow> GumCpuContext option \<Rightarrow> cpu_state \<Rightarrow> cpu_state" where
  "native_write address contents st = st\<lparr>memory := (memory st)(address := contents)\<rparr>"

definition cpu_state_ok :: "cpu_state \<Rightarrow> bool" where
  "cpu_state_ok st =
     ((\<forall>a. a \<ge> next_address st \<longrightarrow> memory st a = None) \<and>
      (\<forall>w. w \<ge> next_wrapper st \<longrightarrow> wrappers st w = None))"

section \<open>Memory ranges\<close>

record GumMemoryRange =
  base_address :: "64 word"
  range_size :: "64 word"

definition IsObject :: "v8_value \<Rightarrow> bool" where
  "IsObject val =
     (case val of
        Function _ \<Rightarrow> True | Array _ \<Rightarrow> True | ArrayBuffer _ \<Rightarrow> True
      | ArrayBufferView _ \<Rightarrow> True | Int64 _ \<Rightarrow> True | UInt64 _ \<Rightarrow> True
      | NativePointer _ \<Rightarrow> True | CpuContext _ _ \<Rightarrow> True | MatchPattern _ \<Rightarrow> True
      | Object _ \<Rightarrow> True | _ \<Rightarrow> False)"

text \<open>\<^verbatim>\<open>_gum_v8_memory_range_get\<close>.\<close>

definition gum_v8_memory_range_get :: "v8_value \<Rightarrow> failure + GumMemoryRange" where
  "gum_v8_memory_range_get val =
     (if \<not> IsObject val then Inl (Throw ''expected a range object'')
      else
        (case Get val ''base'' of
           None \<Rightarrow> Inl Script_exception
         | Some base_value \<Rightarrow>
             (case gum_v8_native_pointer_get base_value of
                Inl f \<Rightarrow> Inl f
              | Inr base \<Rightarrow>
                  (case Get val ''size'' of
                     None \<Rightarrow> Inl Script_exception
                   | Some (Number size_value) \<Rightarrow>
                       Inr \<lparr>base_address = base, range_size = ucast (ToUint32 size_value)\<rparr>
                   | Some _ \<Rightarrow>
                       Inl (Throw ''range object has an invalid or missing size property'')))))"

text \<open>
  \<^verbatim>\<open>_gum_v8_memory_ranges_get\<close>. The result is the contents of the \<^verbatim>\<open>GArray\<close>
  returned; on the failure paths the array under construction has been freed before
  the function returns.
\<close>

fun memory_ranges_from_array :: "v8_value option list \<Rightarrow> failure + GumMemoryRange list" where
  "memory_ranges_from_array [] = Inr []"
| "memory_ranges_from_array (slot # rest) =
     (case slot of
        None \<Rightarrow> Inl Script_exception
      | Some range_value \<Rightarrow>
          (case gum_v8_memory_range_get range_value of
             Inl f \<Rightarrow> Inl f
           | Inr range' \<Rightarrow>
               (case memory_ranges_from_array rest of
                  Inl f \<Rightarrow> Inl f
                | Inr ranges \<Rightarrow> Inr (range' # ranges))))"

definition gum_v8_memory_ranges_get :: "v8_value \<Rightarrow> failure + GumMemoryRange list" where
  "gum_v8_memory_ranges_get val =
     (case val of
        Array range_values \<Rightarrow> memory_ranges_from_array range_values
      | _ \<Rightarrow>
          if IsObject val then
            (case gum_v8_memory_range_get val of
               Inl f \<Rightarrow> Inl f
             | Inr range' \<Rightarrow> Inr [range'])
          else Inl (Throw ''expected a range object or an array of range objects''))"

text \<open>\<^verbatim>\<open>_gum_v8_cpu_context_get\<close>.\<close>

definition gum_v8_cpu_context_get :: "v8_value \<Rightarrow> failure + nat" where
  "gum_v8_cpu_context_get val =
     (case val of
        CpuContext context _ \<Rightarrow> Inr context
      | _ \<Rightarrow> Inl (Throw ''expected a CpuContext object''))"

section \<open>The native heap of a parse\<close>

text \<open>
  The allocations a parse makes and stages: strings from \<^verbatim>\<open>g_strdup\<close>, and the
  reference-counted \<^verbatim>\<open>GArray\<close>, \<^verbatim>\<open>GBytes\<close> and \<^verbatim>\<open>GumMatchPattern\<close>. The heap maps an
  address to the number of references held on the object there (1 for a live string, 0
  for no object), and to what the object is. \<open>next_free\<close> is the address the allocator
  hands out next. \<open>released\<close> is the record of the destructor calls made so far, in
  order, each with its argument.
\<close>

datatype destructor = G_free | G_array_unref | G_bytes_unref | Gum_match_pattern_unref

datatype heap_cell =
    StringCell string
  | ArrayCell "GumMemoryRange list"
  | BytesCell "8 word list"
  | MatchPatternCell string

record native_heap =
  refcount :: "nat \<Rightarrow> int"
  cells :: "nat \<rightharpoonup> heap_cell"
  next_free :: nat
  released :: "(destructor \<times> nat) list"

definition heap_new :: "heap_cell \<Rightarrow> native_heap \<Rightarrow> nat \<times> native_heap" where
  "heap_new cell h =
     (let a = next_free h
      in (a, h\<lparr>refcount := (refcount h)(a := 1), cells := (cells h)(a \<mapsto> cell),
               next_free := Suc a\<rparr>))"

definition heap_release :: "destructor \<Rightarrow> nat \<Rightarrow> native_heap \<Rightarrow> native_heap" where
  "heap_release d a h =
     h\<lparr>refcount := (refcount h)(a := refcount h a - 1), released := released h @ [(d, a)]\<rparr>"

text \<open>
  \<^verbatim>\<open>gum_match_pattern_ref\<close>: defined on the address of a live pattern only.
\<close>

definition gum_match_pattern_ref :: "nat \<Rightarrow> native_heap \<Rightarrow> native_heap option" where
  "gum_match_pattern_ref p h =
     (case cells h p of
        Some (MatchPatternCell _) \<Rightarrow>
          if refcount h p > 0 then Some (h\<lparr>refcount := (refcount h)(p := refcount h p + 1)\<rparr>)
          else None
      | _ \<Rightarrow> None)"

text \<open>The destructor each kind of object is released through.\<close>

definition destructor_of :: "heap_cell \<Rightarrow> destructor" where
  "destructor_of cell =
     (case cell of
        StringCell _ \<Rightarrow> G_free
      | ArrayCell _ \<Rightarrow> G_array_unref
      | BytesCell _ \<Rightarrow> G_bytes_unref
      | MatchPatternCell _ \<Rightarrow> Gum_match_pattern_unref)"

text \<open>What the allocator guarantees: there is no object at an address not yet handed out.\<close>

definition heap_ok :: "native_heap \<Rightarrow> bool" where
  "heap_ok h = (\<forall>a. a \<ge> next_free h \<longrightarrow> refcount h a = 0)"

definition empty_heap :: native_heap where
  "empty_heap = \<lparr>refcount = (\<lambda>a. 0), cells = Map.empty, next_free = 0, released = []\<rparr>"

section \<open>The transactional scope\<close>

text \<open>\<^verbatim>\<open>GumV8ArgsParseScope\<close>: its fields, constructor, destructor and methods.\<close>

record GumV8ArgsParseScope =
  committed :: bool
  strings :: "nat list"
  arrays :: "nat list"
  bytes :: "nat list"
  match_patterns :: "nat list"

definition scope_new :: GumV8ArgsParseScope where
  "scope_new = \<lparr>committed = False, strings = [], arrays = [], bytes = [], match_patterns = []\<rparr>"

definition scope_destructor :: "GumV8ArgsParseScope \<Rightarrow> native_heap \<Rightarrow> native_heap" where
  "scope_destructor scope h =
     (if \<not> committed scope then
        fold (heap_release Gum_match_pattern_unref) (match_patterns scope)
          (fold (heap_release G_bytes_unref) (bytes scope)
            (fold (heap_release G_array_unref) (arrays scope)
              (fold (heap_release G_free) (strings scope) h)))
      else h)"

definition scope_commit :: "GumV8ArgsParseScope \<Rightarrow> GumV8ArgsParseScope" where
  "scope_commit scope = scope\<lparr>committed := True\<rparr>"

definition scope_strdup ::
  "string \<Rightarrow> GumV8ArgsParseScope \<Rightarrow> native_heap \<Rightarrow> nat \<times> GumV8ArgsParseScope \<times> native_heap" where
  "scope_strdup s scope h =
     (let (result, h) = heap_new (StringCell s) h
      in (result, scope\<lparr>strings := result # strings scope\<rparr>, h))"

definition scope_add_array :: "nat \<Rightarrow> GumV8ArgsParseScope \<Rightarrow> GumV8ArgsParseScope" where
  "scope_add_array a scope = scope\<lparr>arrays := a # arrays scope\<rparr>"

definition scope_add_bytes :: "nat \<Rightarrow> GumV8ArgsParseScope \<Rightarrow> GumV8ArgsParseScope" where
  "scope_add_bytes b scope = scope\<lparr>bytes := b # bytes scope\<rparr>"

definition scope_add_match_pattern :: "nat \<Rightarrow> GumV8ArgsParseScope \<Rightarrow> GumV8ArgsParseScope" where
  "scope_add_match_pattern p scope = scope\<lparr>match_patterns := p # match_patterns scope\<rparr>"

text \<open>The destructor calls that release everything a scope has staged.\<close>

definition staged_releases :: "GumV8ArgsParseScope \<Rightarrow> (destructor \<times> nat) list" where
  "staged_releases scope =
     map (Pair G_free) (strings scope) @ map (Pair G_array_unref) (arrays scope) @
     map (Pair G_bytes_unref) (bytes scope) @
     map (Pair Gum_match_pattern_unref) (match_patterns scope)"

definition staged :: "GumV8ArgsParseScope \<Rightarrow> nat list" where
  "staged scope = strings scope @ arrays scope @ bytes scope @ match_patterns scope"

section \<open>The argument parser\<close>

text \<open>
  An output slot, once written, holds a value of the type its tag stores. A string, a
  range array, a byte buffer and a match pattern are stored as the address of the
  object on the native heap; a null pointer and an empty engine handle are \<open>None\<close>.
\<close>

datatype slot =
    Slot_int "32 word"
  | Slot_uint "32 word"
  | Slot_int64 "64 word"
  | Slot_uint64 "64 word"
  | Slot_ssize "64 word"
  | Slot_size "64 word"
  | Slot_double js_number
  | Slot_boolean bool
  | Slot_pointer "64 word"
  | Slot_string "nat option"
  | Slot_std_string string
  | Slot_range GumMemoryRange
  | Slot_ranges nat
  | Slot_page_protection GumPageProtection
  | Slot_value v8_value
  | Slot_object "v8_value option"
  | Slot_array "v8_value option"
  | Slot_function "v8_value option"
  | Slot_bytes "nat option"
  | Slot_cpu_context "nat option"
  | Slot_match_pattern nat

text \<open>
  What the parser is given besides the arguments and the format: the engine, and
  \<^verbatim>\<open>gum_match_pattern_new_from_string\<close> of the instrumentation library, of which the
  parser uses only whether it returns a pattern for a string.
\<close>

record parse_env =
  engine :: js_engine
  match_pattern_compiles :: "string \<Rightarrow> bool"

text \<open>
  The state of a parse: the scope, the native heap, the output slots written so far in
  the order of the variadic list, and the locals \<^verbatim>\<open>arg_index\<close> and \<^verbatim>\<open>is_required\<close>.
\<close>

record parse_state =
  scope :: GumV8ArgsParseScope
  heap :: native_heap
  slots :: "slot list"
  arg_index :: nat
  is_required :: bool

text \<open>
  A case of the switch yields: the failure it returned \<^verbatim>\<open>FALSE\<close> with if any, the state,
  and the number of modifier characters after the tag that it stepped over.
\<close>

type_synonym tag_result = "failure option \<times> parse_state \<times> nat"

definition write_slots :: "slot list \<Rightarrow> parse_state \<Rightarrow> parse_state" where
  "write_slots new st = st\<lparr>slots := slots st @ new\<rparr>"

definition converted :: "failure + 'a \<Rightarrow> ('a \<Rightarrow> slot) \<Rightarrow> nat \<Rightarrow> parse_state \<Rightarrow> tag_result" where
  "converted r mk n st =
     (case r of
        Inl f \<Rightarrow> (Some f, st, n)
      | Inr v \<Rightarrow> (None, write_slots [mk v] st, n))"

definition followed_by :: "char \<Rightarrow> string \<Rightarrow> bool" where
  "followed_by m rest = (case rest of [] \<Rightarrow> False | c # _ \<Rightarrow> c = m)"

text \<open>
  The callback value of the \<^verbatim>\<open>F\<close> cases: the slots written for a value, or the failure.
\<close>

definition callback_slots ::
  "bool \<Rightarrow> bool \<Rightarrow> bool \<Rightarrow> string \<Rightarrow> v8_value \<Rightarrow> failure + slot list" where
  "callback_slots accepts_pointer allows_absent absent message val =
     (case val of
        Function _ \<Rightarrow>
          Inr (Slot_function (Some val) # (if accepts_pointer then [Slot_pointer 0] else []))
      | _ \<Rightarrow>
          if allows_absent \<and> absent then
            Inr (Slot_function None # (if accepts_pointer then [Slot_pointer 0] else []))
          else
            (case val of
               NativePointer p \<Rightarrow>
                 if accepts_pointer then Inr [Slot_function None, Slot_pointer p]
                 else Inl (Throw message)
             | _ \<Rightarrow> Inl (Throw message)))"

definition index_of :: "char \<Rightarrow> string \<Rightarrow> nat" where
  "index_of c s = length (takeWhile (\<lambda>x. x \<noteq> c) s)"

text \<open>
  The do-while loop of the \<^verbatim>\<open>F{...}\<close> case. \<open>t\<close> is the format from the current name on.
  The result is the failure if any, the slots written, and the number of characters up
  to and including the closing brace. Without a closing brace, with an empty name, or
  with a name that does not fit \<^verbatim>\<open>name[64]\<close>, the C++ has no defined behaviour.
\<close>

function callbacks_loop ::
  "bool \<Rightarrow> v8_value \<Rightarrow> string \<Rightarrow> failure option \<times> slot list \<times> nat" where
  "callbacks_loop accepts_pointer callbacks t =
     (if CHR ''}'' \<notin> set t then (Some Undefined_behaviour, [], 0)
      else
        (let next = index_of CHR '','' t;
             end' = index_of CHR ''}'' t;
             t_end = (if next < length t \<and> next < end' then next else end');
             length' = t_end
         in if length' = 0 \<or> length' > 64 \<or> (length' = 64 \<and> t ! 63 \<noteq> CHR ''?'')
            then (Some Undefined_behaviour, [], 0)
            else
              (let is_optional = (t ! (length' - 1) = CHR ''?'');
                   name = take (if is_optional then length' - 1 else length') t
               in case Get callbacks name of
                    None \<Rightarrow> (Some Script_exception, [], 0)
                  | Some val \<Rightarrow>
                      (case callback_slots accepts_pointer is_optional (val = Undefined)
                              ''expected a callback value'' val of
                         Inl f \<Rightarrow> (Some f, [], 0)
                       | Inr new \<Rightarrow>
                           if t_end = end' then (None, new, t_end + 1)
                           else
                             (case callbacks_loop accepts_pointer callbacks
                                     (drop (t_end + 1) t) of
                                (f, later, n) \<Rightarrow> (f, new @ later, t_end + 1 + n))))))"
  by pat_completeness auto
termination
  by (relation "measure (\<lambda>(accepts_pointer, callbacks, t). length t)") auto

declare callbacks_loop.simps [simp del]

text \<open>The cases of the switch that stage an allocation in the scope.\<close>

definition case_s :: "string \<Rightarrow> v8_value \<Rightarrow> parse_state \<Rightarrow> tag_result" where
  "case_s rest arg st =
     (let is_nullable = followed_by CHR ''?'' rest;
          n = (if is_nullable then 1 else 0)
      in if is_nullable \<and> arg = Null then (None, write_slots [Slot_string None] st, n)
         else
           (case arg of
              String arg_utf8 \<Rightarrow>
                (let (str, scope', heap') = scope_strdup (c_str arg_utf8) (scope st) (heap st)
                 in (None, write_slots [Slot_string (Some str)] (st\<lparr>scope := scope', heap := heap'\<rparr>),
                     n))
            | _ \<Rightarrow> (Some (Throw ''expected a string''), st, n)))"

definition case_R :: "v8_value \<Rightarrow> parse_state \<Rightarrow> tag_result" where
  "case_R arg st =
     (case gum_v8_memory_ranges_get arg of
        Inl f \<Rightarrow> (Some f, st, 0)
      | Inr contents \<Rightarrow>
          (let (ranges, heap') = heap_new (ArrayCell contents) (heap st);
               st = st\<lparr>scope := scope_add_array ranges (scope st), heap := heap'\<rparr>
           in (None, write_slots [Slot_ranges ranges] st, 0)))"

definition case_B :: "parse_env \<Rightarrow> string \<Rightarrow> v8_value \<Rightarrow> parse_state \<Rightarrow> tag_result" where
  "case_B env rest arg st =
     (let is_fuzzy = followed_by CHR ''~'' rest;
          rest = (if is_fuzzy then tl rest else rest);
          is_nullable = followed_by CHR ''?'' rest;
          n = (if is_fuzzy then 1 else 0) + (if is_nullable then 1 else 0)
      in if is_nullable \<and> arg = Null then (None, write_slots [Slot_bytes None] st, n)
         else
           (case (if is_fuzzy then gum_v8_bytes_parse (engine env) arg
                  else gum_v8_bytes_get (engine env) arg) of
              Inl f \<Rightarrow> (Some f, st, n)
            | Inr contents \<Rightarrow>
                (let (bytes', heap') = heap_new (BytesCell contents) (heap st);
                     st = st\<lparr>scope := scope_add_bytes bytes' (scope st), heap := heap'\<rparr>
                 in (None, write_slots [Slot_bytes (Some bytes')] st, n))))"

definition case_M :: "parse_env \<Rightarrow> v8_value \<Rightarrow> parse_state \<Rightarrow> tag_result" where
  "case_M env arg st =
     (case arg of
        String arg_utf8 \<Rightarrow>
          if match_pattern_compiles env (c_str arg_utf8) then
            (let (pattern, heap') = heap_new (MatchPatternCell (c_str arg_utf8)) (heap st);
                 st = st\<lparr>scope := scope_add_match_pattern pattern (scope st), heap := heap'\<rparr>
             in (None, write_slots [Slot_match_pattern pattern] st, 0))
          else (Some (Throw ''invalid match pattern''), st, 0)
      | MatchPattern pattern \<Rightarrow>
          (case gum_match_pattern_ref pattern (heap st) of
             None \<Rightarrow> (Some Undefined_behaviour, st, 0)
           | Some heap' \<Rightarrow>
               (let st = st\<lparr>scope := scope_add_match_pattern pattern (scope st), heap := heap'\<rparr>
                in (None, write_slots [Slot_match_pattern pattern] st, 0)))
      | _ \<Rightarrow>
          (Some (Throw ''expected either a pattern string or a MatchPattern object''), st, 0))"

text \<open>The \<^verbatim>\<open>F\<close> case, which writes one or two slots per callback.\<close>

definition case_F :: "string \<Rightarrow> v8_value \<Rightarrow> parse_state \<Rightarrow> tag_result" where
  "case_F rest arg st =
     (let accepts_pointer = followed_by CHR ''*'' rest;
          rest = (if accepts_pointer then tl rest else rest);
          skipped = (if accepts_pointer then 1 else 0);
          is_expecting_object = followed_by CHR ''{'' rest
      in if is_expecting_object then
           (if \<not> IsObject arg
            then (Some (Throw ''expected an object containing callbacks''), st, skipped + 1)
            else
              (case callbacks_loop accepts_pointer arg (tl rest) of
                 (f, new, n) \<Rightarrow> (f, write_slots new st, skipped + 1 + n)))
         else
           (let is_nullable = followed_by CHR ''?'' rest;
                n = skipped + (if is_nullable then 1 else 0)
            in case callback_slots accepts_pointer is_nullable (arg = Null)
                      ''expected a function'' arg of
                 Inl f \<Rightarrow> (Some f, st, n)
               | Inr new \<Rightarrow> (None, write_slots new st, n)))"

text \<open>The switch on the tag.\<close>

definition parse_tag :: "parse_env \<Rightarrow> char \<Rightarrow> string \<Rightarrow> v8_value \<Rightarrow> parse_state \<Rightarrow> tag_result" where
  "parse_tag env c rest arg st =
     (let fuzzy = followed_by CHR ''~'' rest;
          nullable = followed_by CHR ''?'' rest;
          n_fuzzy = (if fuzzy then 1 else 0);
          n_nullable = (if nullable then 1 else 0)
      in
      if c = CHR ''i'' then converted (gum_v8_int_get arg) Slot_int 0 st
      else if c = CHR ''u'' then converted (gum_v8_uint_get arg) Slot_uint 0 st
      else if c = CHR ''q'' then
        converted (if fuzzy then gum_v8_int64_parse arg else gum_v8_int64_get arg)
          Slot_int64 n_fuzzy st
      else if c = CHR ''Q'' then
        converted (if fuzzy then gum_v8_uint64_parse arg else gum_v8_uint64_get arg)
          Slot_uint64 n_fuzzy st
      else if c = CHR ''z'' then converted (gum_v8_ssize_get arg) Slot_ssize 0 st
      else if c = CHR ''Z'' then converted (gum_v8_size_get arg) Slot_size 0 st
      else if c = CHR ''n'' then
        converted (case arg of Number v \<Rightarrow> Inr v | _ \<Rightarrow> Inl (Throw ''expected a number''))
          Slot_double 0 st
      else if c = CHR ''t'' then
        converted (case arg of Boolean b \<Rightarrow> Inr b | _ \<Rightarrow> Inl (Throw ''expected a boolean''))
          Slot_boolean 0 st
      else if c = CHR ''p'' then
        converted (if fuzzy then gum_v8_native_pointer_parse arg
                   else gum_v8_native_pointer_get arg)
          Slot_pointer n_fuzzy st
      else if c = CHR ''X'' then
        converted (case arg of External p \<Rightarrow> Inr p
                   | _ \<Rightarrow> Inl (Throw ''expected an external pointer''))
          Slot_pointer 0 st
      else if c = CHR ''s'' then case_s rest arg st
      else if c = CHR ''S'' then
        converted (case arg of String arg_utf8 \<Rightarrow> Inr (c_str arg_utf8)
                   | _ \<Rightarrow> Inl (Throw ''expected a string''))
          Slot_std_string 0 st
      else if c = CHR ''r'' then converted (gum_v8_memory_range_get arg) Slot_range 0 st
      else if c = CHR ''R'' then case_R arg st
      else if c = CHR ''m'' then
        converted (gum_v8_page_protection_get arg) Slot_page_protection 0 st
      else if c = CHR ''V'' then converted (Inr arg) Slot_value 0 st
      else if c = CHR ''O'' then
        converted (if nullable \<and> arg = Null then Inr None
                   else if IsObject arg then Inr (Some arg)
                   else Inl (Throw ''expected an object''))
          Slot_object n_nullable st
      else if c = CHR ''A'' then
        converted (case arg of
                     Array _ \<Rightarrow> Inr (Some arg)
                   | _ \<Rightarrow> if nullable \<and> arg = Null then Inr None
                          else Inl (Throw ''expected an array''))
          Slot_array n_nullable st
      else if c = CHR ''F'' then case_F rest arg st
      else if c = CHR ''B'' then case_B env rest arg st
      else if c = CHR ''C'' then
        converted (if nullable \<and> arg = Null then Inr None
                   else (case gum_v8_cpu_context_get arg of
                           Inl f \<Rightarrow> Inl (Throw ''expected a CpuContext object'')
                         | Inr cpu_context \<Rightarrow> Inr (Some cpu_context)))
          Slot_cpu_context n_nullable st
      else if c = CHR ''M'' then case_M env arg st
      else (Some Abort, st, 0))"

text \<open>
  The loop of \<^verbatim>\<open>_gum_v8_args_parse\<close> over the format. The result is the failure the loop
  left the function with, if any, and the state at that point.
\<close>

function args_parse_loop ::
  "parse_env \<Rightarrow> v8_value list \<Rightarrow> string \<Rightarrow> parse_state \<Rightarrow> failure option \<times> parse_state" where
  "args_parse_loop env args [] st = (None, st)"
| "args_parse_loop env args (c # rest) st =
     (if c = CHR ''|'' then args_parse_loop env args rest (st\<lparr>is_required := False\<rparr>)
      else if arg_index st \<ge> length args \<or> args ! arg_index st = Undefined then
        (if is_required st then (Some (Throw ''missing argument''), st) else (None, st))
      else
        (case parse_tag env c rest (args ! arg_index st) st of
           (Some f, st', n) \<Rightarrow> (Some f, st')
         | (None, st', n) \<Rightarrow>
             args_parse_loop env args (drop n rest) (st'\<lparr>arg_index := Suc (arg_index st')\<rparr>)))"
  by pat_completeness auto
termination
  by (relation "measure (\<lambda>(env, args, t, st). length t)") auto

text \<open>
  Whether a failure lets the function return \<^verbatim>\<open>FALSE\<close>, so that the destructor of the
  scope runs: an exception is pending. After an abort or undefined behaviour nothing
  more is known.
\<close>

definition returns_false :: "failure \<Rightarrow> bool" where
  "returns_false f = (case f of Throw _ \<Rightarrow> True | Script_exception \<Rightarrow> True | _ \<Rightarrow> False)"

text \<open>
  \<^verbatim>\<open>_gum_v8_args_parse\<close>: \<open>result\<close> is \<open>None\<close> when it returns \<^verbatim>\<open>TRUE\<close>; the heap is the
  one left when the scope has gone out of scope.
\<close>

record parse_outcome =
  result :: "failure option"
  final_slots :: "slot list"
  final_scope :: GumV8ArgsParseScope
  final_heap :: native_heap

definition gum_v8_args_parse ::
  "parse_env \<Rightarrow> v8_value list \<Rightarrow> string \<Rightarrow> native_heap \<Rightarrow> parse_outcome" where
  "gum_v8_args_parse env args format h =
     (let st = \<lparr>scope = scope_new, heap = h, slots = [], arg_index = 0, is_required = True\<rparr>
      in case args_parse_loop env args (c_str format) st of
           (None, st) \<Rightarrow>
             (let scope' = scope_commit (scope st)
              in \<lparr>result = None, final_slots = slots st, final_scope = scope',
                  final_heap = scope_destructor scope' (heap st)\<rparr>)
         | (Some f, st) \<Rightarrow>
             \<lparr>result = Some f, final_slots = slots st, final_scope = scope st,
              final_heap = (if returns_false f then scope_destructor (scope st) (heap st)
                            else heap st)\<rparr>)"

text \<open>
  The invariant of the loop, relative to the heap \<open>h0\<close> the parse started with: nothing
  is committed or released; every reference the heap holds beyond those of \<open>h0\<close> is
  staged in the scope, as often as it was taken; and each staged address holds an
  object of the kind of the collection it is staged in.
\<close>

definition parse_inv :: "native_heap \<Rightarrow> parse_state \<Rightarrow> bool" where
  "parse_inv h0 st =
     (\<not> committed (scope st) \<and>
      released (heap st) = released h0 \<and>
      heap_ok (heap st) \<and>
      next_free h0 \<le> next_free (heap st) \<and>
      (\<forall>a. refcount (heap st) a = refcount h0 a + int (count_list (staged (scope st)) a)) \<and>
      (\<forall>a \<in> set (staged (scope st)). a < next_free (heap st)) \<and>
      (\<forall>(d, a) \<in> set (staged_releases (scope st)).
          \<exists>cell. cells (heap st) a = Some cell \<and> destructor_of cell = d))"

text \<open>The characters that are cases of the switch.\<close>

definition is_tag :: "char \<Rightarrow> bool" where
  "is_tag c = (c \<in> set ''iuqQzZntpXsSrRmVOAFBCM'')"

chapter \<open>Results\<close>

section \<open>Page protection strings\<close>

lemma page_protection_scan_ok:
  "(\<exists>p. page_protection_scan s prot = Inr p) = list_all is_protection_char s"
  by (induction s arbitrary: prot) (auto simp: is_protection_char_def)

lemma page_protection_scan_fail:
  "page_protection_scan s prot = Inl e \<Longrightarrow>
     e = Throw ''invalid character in memory protection specifier string''"
  by (induction s arbitrary: prot) (auto split: if_splits)

lemma and_exp_cases: "a AND 2 ^ n = (if bit a n then 2 ^ n else 0)" for a :: "'a::len word"
  by (rule bit_word_eqI) (auto simp: bit_simps)

lemma prot_and_1: "prot AND 1 = (if bit prot 0 then 1 else 0)" for prot :: "32 word"
  using and_exp_cases [of prot 0] by simp

lemma prot_and_2: "prot AND 2 = (if bit prot 1 then 2 else 0)" for prot :: "32 word"
  using and_exp_cases [of prot 1] by simp

lemma prot_and_4: "prot AND 4 = (if bit prot 2 then 4 else 0)" for prot :: "32 word"
  using and_exp_cases [of prot 2] by simp

lemma prot_and_7: "prot AND 7 = (prot AND 1) OR (prot AND 2) OR (prot AND 4)" for prot :: "32 word"
proof -
  have "(7::32 word) = 1 OR 2 OR 4" by simp
  then show ?thesis by (simp only: bit.conj_disj_distrib)
qed

lemma page_protection_new_get:
  "gum_v8_page_protection_get (String (gum_v8_page_protection_new prot)) = Inr (prot AND 7)"
  by (simp add: gum_v8_page_protection_get_def gum_v8_page_protection_new_def c_str_def
      GUM_PAGE_NO_ACCESS_def GUM_PAGE_READ_def GUM_PAGE_WRITE_def GUM_PAGE_EXECUTE_def
      prot_and_7 prot_and_1 prot_and_2 prot_and_4)

lemma page_protection_new_form: "is_protection_string (gum_v8_page_protection_new prot)"
  by (simp add: is_protection_string_def gum_v8_page_protection_new_def)

lemma page_protection_get_String:
  "(\<exists>p. gum_v8_page_protection_get (String s) = Inr p) = list_all is_protection_char (c_str s)"
  by (simp add: gum_v8_page_protection_get_def page_protection_scan_ok)

lemma page_protection_get_String_fails:
  "(gum_v8_page_protection_get (String s) =
      Inl (Throw ''invalid character in memory protection specifier string'')) =
   (\<not> list_all is_protection_char (c_str s))"
proof (cases "gum_v8_page_protection_get (String s)")
  case (Inl e)
  then have "e = Throw ''invalid character in memory protection specifier string''"
    by (simp add: gum_v8_page_protection_get_def page_protection_scan_fail)
  with Inl show ?thesis
    using page_protection_get_String [of s] by simp
next
  case (Inr p)
  then show ?thesis
    using page_protection_get_String [of s] by simp
qed

lemma letters_flags_Cons:
  "letters_flags (ch # rest) =
     (if ch = CHR ''r'' then GUM_PAGE_READ
      else if ch = CHR ''w'' then GUM_PAGE_WRITE
      else if ch = CHR ''x'' then GUM_PAGE_EXECUTE else 0) OR letters_flags rest"
  by (simp add: letters_flags_def ac_simps)

lemma page_protection_scan_value:
  "list_all is_protection_char s \<Longrightarrow>
     page_protection_scan s prot = Inr (prot OR letters_flags s)"
proof (induction s arbitrary: prot)
  case Nil
  then show ?case by (simp add: letters_flags_def)
next
  case (Cons ch rest)
  then have ih: "\<And>p. page_protection_scan rest p = Inr (p OR letters_flags rest)"
    by simp
  from Cons.prems have "is_protection_char ch" by simp
  then show ?case
    by (auto simp: is_protection_char_def ih letters_flags_Cons ac_simps)
qed

lemma page_protection_get_value:
  "list_all is_protection_char (c_str s) \<Longrightarrow>
     gum_v8_page_protection_get (String s) = Inr (letters_flags (c_str s))"
  by (simp add: gum_v8_page_protection_get_def page_protection_scan_value GUM_PAGE_NO_ACCESS_def)

lemma page_protection_get_not_string:
  "(\<forall>t. val \<noteq> String t) \<Longrightarrow>
     gum_v8_page_protection_get val =
       Inl (Throw ''expected a string specifying memory protection'')"
  by (cases val) (simp_all add: gum_v8_page_protection_get_def)

lemma c_str_no_nul: "CHR 0x00 \<notin> set s \<Longrightarrow> c_str s = s"
  by (auto simp: c_str_def takeWhile_eq_all_conv)

text \<open>
  C9, as stated, fails: \<^verbatim>\<open>_gum_v8_page_protection_get\<close> checks neither the length nor
  the order of the characters. The string \<^verbatim>\<open>"xwr"\<close> is not of the three-character
  read/write/execute form, and it parses to all three flags.
\<close>

theorem page_protection_get_accepts_other_strings:
  "\<not> is_protection_string ''xwr'' \<and> gum_v8_page_protection_get (String ''xwr'') = Inr 7"
  by (simp add: gum_v8_page_protection_get_def c_str_def is_protection_string_def
      GUM_PAGE_NO_ACCESS_def GUM_PAGE_READ_def GUM_PAGE_WRITE_def GUM_PAGE_EXECUTE_def)

text \<open>
  C9, amended: for every flag set, \<^verbatim>\<open>_gum_v8_page_protection_new\<close> produces a string of
  exactly three characters in the order read/write/execute, each its letter or a dash,
  and parsing that string gives back the three flags. \<^verbatim>\<open>_gum_v8_page_protection_get\<close>
  reads a string as C text, that is up to its first NUL byte; on a string with no NUL
  byte this is the whole string. It succeeds exactly when every character of that text
  is one of r, w, x and the dash, whatever their number and order, and the result then
  has the read, write and execute flags of the letters that occur; on every other
  string it fails with the invalid-character exception. Every value that is not a
  string is refused with the expected-a-string exception.
\<close>

theorem page_protection_strings:
  "is_protection_string (gum_v8_page_protection_new prot) \<and>
   gum_v8_page_protection_get (String (gum_v8_page_protection_new prot)) = Inr (prot AND 7) \<and>
   gum_v8_page_protection_get (String s) =
     (if list_all is_protection_char (c_str s) then Inr (letters_flags (c_str s))
      else Inl (Throw ''invalid character in memory protection specifier string'')) \<and>
   (CHR 0x00 \<notin> set s \<longrightarrow>
      gum_v8_page_protection_get (String s) =
        (if list_all is_protection_char s then Inr (letters_flags s)
         else Inl (Throw ''invalid character in memory protection specifier string''))) \<and>
   ((\<forall>t. val \<noteq> String t) \<longrightarrow>
      gum_v8_page_protection_get val =
        Inl (Throw ''expected a string specifying memory protection''))"
proof -
  have a: "gum_v8_page_protection_get (String s) =
     (if list_all is_protection_char (c_str s) then Inr (letters_flags (c_str s))
      else Inl (Throw ''invalid character in memory protection specifier string''))"
    using page_protection_get_value [of s] page_protection_get_String_fails [of s]
    by simp
  have b: "c_str s = s" if "CHR 0x00 \<notin> set s"
    using that by (rule c_str_no_nul)
  have c: "gum_v8_page_protection_get val =
      Inl (Throw ''expected a string specifying memory protection'')"
    if "\<forall>t. val \<noteq> String t"
    using that by (rule page_protection_get_not_string)
  from a b c show ?thesis
    by (simp add: page_protection_new_form page_protection_new_get)
qed

theorem page_protection_strings_witness:
  "gum_v8_page_protection_get (String ''rw'') = Inr 3 \<and>
   gum_v8_page_protection_get (String ''x-r-x'') = Inr 5 \<and>
   gum_v8_page_protection_get (String ''r!'') =
     Inl (Throw ''invalid character in memory protection specifier string'') \<and>
   gum_v8_page_protection_get (String [CHR ''r'', CHR 0x00, CHR ''!'']) = Inr 1 \<and>
   gum_v8_page_protection_get (Boolean True) =
     Inl (Throw ''expected a string specifying memory protection'') \<and>
   gum_v8_page_protection_get (Array []) =
     Inl (Throw ''expected a string specifying memory protection'')"
  using page_protection_strings [of 0 "''rw''" "Boolean True"]
    page_protection_strings [of 0 "''x-r-x''" "Array []"]
    page_protection_strings [of 0 "''r!''" "Boolean True"]
    page_protection_strings [of 0 "[CHR ''r'', CHR 0x00, CHR ''!'']" "Boolean True"]
  by (simp add: c_str_def is_protection_char_def letters_flags_def
      GUM_PAGE_READ_def GUM_PAGE_WRITE_def GUM_PAGE_EXECUTE_def)

section \<open>Error message casing\<close>

lemma take_error_two_upper:
  "g_unichar_isupper ud a \<Longrightarrow> g_unichar_isupper ud b \<Longrightarrow>
     gum_v8_error_new_take_error ud (Some (a # b # rest)) = (Some (a # b # rest), None)"
  by (simp add: gum_v8_error_new_take_error_def probably_starts_with_acronym_def
      g_utf8_get_char_def)

lemma take_error_otherwise:
  "\<not> (g_unichar_isupper ud a \<and> g_unichar_isupper ud b) \<Longrightarrow>
     gum_v8_error_new_take_error ud (Some (a # b # rest)) =
       (Some (g_unichar_tolower ud a # b # rest), None)"
  by (auto simp: gum_v8_error_new_take_error_def probably_starts_with_acronym_def
      g_utf8_get_char_def)

lemma take_error_single:
  "gum_v8_error_new_take_error ud (Some [a]) = (Some [g_unichar_tolower ud a], None)"
  by (simp add: gum_v8_error_new_take_error_def probably_starts_with_acronym_def)

lemma error_get_message_Cons:
  "gum_v8_error_get_message ud (a # rest) = g_unichar_toupper ud a # rest"
  by (cases rest)
    (auto simp: gum_v8_error_get_message_def strlen_utf8_def g_utf8_get_char_def Let_def
      utf8_length_def)

lemma take_error_examples:
  "gum_v8_error_new_take_error ud (Some (ascii ''bad pointer'')) =
     (Some (ascii ''bad pointer''), None)"
  "gum_v8_error_new_take_error ud (Some (ascii ''URL invalid'')) =
     (Some (ascii ''URL invalid''), None)"
  by (simp_all add: gum_v8_error_new_take_error_def ascii_def probably_starts_with_acronym_def
      g_unichar_isupper_def g_utf8_get_char_def g_unichar_tolower_def)

lemma error_get_message_example:
  "gum_v8_error_get_message ud (ascii ''bad pointer'') = ascii ''Bad pointer''"
  by (simp add: ascii_def error_get_message_Cons g_unichar_toupper_def)

text \<open>
  C6: \<^verbatim>\<open>_gum_v8_error_new_take_error\<close> uses the message verbatim when its first two
  characters are both uppercase, and otherwise lower-cases the first character and
  nothing else; \<^verbatim>\<open>_gum_v8_error_get_message\<close> upper-cases the first character and
  nothing else. The native message "bad pointer" marshals to "bad pointer", "URL invalid"
  marshals verbatim, and extracting "bad pointer" yields "Bad pointer". This holds for
  every Unicode character database beyond ASCII.
\<close>

theorem error_message_casing:
  "(g_unichar_isupper ud a \<and> g_unichar_isupper ud b \<longrightarrow>
      gum_v8_error_new_take_error ud (Some (a # b # rest)) = (Some (a # b # rest), None)) \<and>
   (\<not> (g_unichar_isupper ud a \<and> g_unichar_isupper ud b) \<longrightarrow>
      gum_v8_error_new_take_error ud (Some (a # b # rest)) =
        (Some (g_unichar_tolower ud a # b # rest), None)) \<and>
   gum_v8_error_new_take_error ud (Some [a]) = (Some [g_unichar_tolower ud a], None) \<and>
   gum_v8_error_get_message ud (a # rest) = g_unichar_toupper ud a # rest \<and>
   gum_v8_error_new_take_error ud (Some (ascii ''bad pointer'')) =
     (Some (ascii ''bad pointer''), None) \<and>
   gum_v8_error_new_take_error ud (Some (ascii ''URL invalid'')) =
     (Some (ascii ''URL invalid''), None) \<and>
   gum_v8_error_get_message ud (ascii ''bad pointer'') = ascii ''Bad pointer''"
  using take_error_two_upper [of ud a b rest] take_error_otherwise [of ud a b rest]
  by (simp add: take_error_single error_get_message_Cons take_error_examples
      error_get_message_example)

theorem error_message_casing_witness:
  "g_unichar_isupper \<lparr>ud_isupper = (\<lambda>c. False), ud_tolower = (\<lambda>c. c), ud_toupper = (\<lambda>c. c)\<rparr> 85 \<and>
   g_unichar_isupper \<lparr>ud_isupper = (\<lambda>c. False), ud_tolower = (\<lambda>c. c), ud_toupper = (\<lambda>c. c)\<rparr> 82 \<and>
   gum_v8_error_new_take_error
     \<lparr>ud_isupper = (\<lambda>c. False), ud_tolower = (\<lambda>c. c), ud_toupper = (\<lambda>c. c)\<rparr>
     (Some [85, 82, 76]) = (Some [85, 82, 76], None) \<and>
   \<not> (g_unichar_isupper \<lparr>ud_isupper = (\<lambda>c. False), ud_tolower = (\<lambda>c. c), ud_toupper = (\<lambda>c. c)\<rparr> 66 \<and>
      g_unichar_isupper \<lparr>ud_isupper = (\<lambda>c. False), ud_tolower = (\<lambda>c. c), ud_toupper = (\<lambda>c. c)\<rparr> 97) \<and>
   gum_v8_error_new_take_error
     \<lparr>ud_isupper = (\<lambda>c. False), ud_tolower = (\<lambda>c. c), ud_toupper = (\<lambda>c. c)\<rparr>
     (Some [66, 97, 100]) = (Some [98, 97, 100], None)"
  using error_message_casing
      [of "\<lparr>ud_isupper = (\<lambda>c. False), ud_tolower = (\<lambda>c. c), ud_toupper = (\<lambda>c. c)\<rparr>" 85 82 "[76]"]
    error_message_casing
      [of "\<lparr>ud_isupper = (\<lambda>c. False), ud_tolower = (\<lambda>c. c), ud_toupper = (\<lambda>c. c)\<rparr>" 66 97 "[100]"]
  by (simp add: g_unichar_isupper_def g_unichar_tolower_def)

section \<open>Numeric text and the fuzzy parses\<close>












lemmas numeric_text_eval =
  c_str_def g_str_has_prefix_def g_ascii_strtoull_def g_ascii_strtoll_def
  g_parse_long_long_def ISSPACE_def has_hex_prefix_def digit_value_def G_MAXUINT64_def

lemma trunc_negative: "q < 0 \<Longrightarrow> trunc q \<le> 0"
  by (simp add: trunc_def)

lemma native_pointer_parse_negative:
  assumes "q < 0" and "- (2 ^ 63) \<le> trunc q"
  shows "gum_v8_native_pointer_parse (Number (Finite q)) = Inr (word_of_int (trunc q))"
proof -
  have "trunc q < 2 ^ 63"
    using trunc_negative [OF assms(1)] by simp
  with assms show ?thesis
    by (simp add: gum_v8_native_pointer_parse_def double_less_def double_to_int64_def)
qed

lemma sint_word_of_int_64:
  "- (2 ^ 63) \<le> i \<Longrightarrow> i < 2 ^ 63 \<Longrightarrow> sint (word_of_int i :: 64 word) = i"
  using signed_take_bit_int_eq_self [of 63 i] by (simp add: sint_sbintrunc')

text \<open>
  C4: the fuzzy pointer parse maps the string "0x1000" to address 4096, the string
  "4096" to address 4096, and the number -1 to the address with all 64 bits set. Every
  negative number whose integer part fits 64 bits is stored as its two's complement:
  read as a signed 64-bit integer, the address is the number's integer part.
\<close>

theorem native_pointer_parse_fuzzy:
  "gum_v8_native_pointer_parse (String ''0x1000'') = Inr 4096 \<and>
   gum_v8_native_pointer_parse (String ''4096'') = Inr 4096 \<and>
   gum_v8_native_pointer_parse (Number (Finite (- 1))) = Inr (mask 64) \<and>
   (q < 0 \<and> - (2 ^ 63) \<le> trunc q \<longrightarrow>
      (\<exists>p. gum_v8_native_pointer_parse (Number (Finite q)) = Inr p \<and> sint p = trunc q))"
proof -
  have a: "gum_v8_native_pointer_parse (String ''0x1000'') = Inr 4096"
    by (simp add: gum_v8_native_pointer_parse_def numeric_text_eval)
  have b: "gum_v8_native_pointer_parse (String ''4096'') = Inr 4096"
    by (simp add: gum_v8_native_pointer_parse_def numeric_text_eval)
  have c: "gum_v8_native_pointer_parse (Number (Finite (- 1))) = Inr (mask 64)"
    using minus_1_eq_mask [where ?'a = 64]
    by (simp add: gum_v8_native_pointer_parse_def double_less_def double_to_int64_def trunc_def)
  have d: "\<exists>p. gum_v8_native_pointer_parse (Number (Finite q)) = Inr p \<and> sint p = trunc q"
    if "q < 0" and "- (2 ^ 63) \<le> trunc q"
  proof -
    have "trunc q < 2 ^ 63"
      using trunc_negative [OF that(1)] by simp
    with that show ?thesis
      by (simp add: native_pointer_parse_negative sint_word_of_int_64)
  qed
  from a b c d show ?thesis by blast
qed

theorem native_pointer_parse_fuzzy_witness:
  "(- 2 :: rat) < 0 \<and> - (2 ^ 63) \<le> trunc (- 2) \<and>
   (\<exists>p. gum_v8_native_pointer_parse (Number (Finite (- 2))) = Inr p \<and> sint p = trunc (- 2))"
  using native_pointer_parse_fuzzy [of "- 2"] by (simp add: trunc_def)














lemma numeric_text_alt: "numeric_text t = starts_number (text_base t) (text_digits t)"
  by (simp add: numeric_text_def text_base_def text_digits_def)








section \<open>Byte buffers from arrays\<close>

lemma bytes_from_array_values:
  "bytes_from_array eng (map Some vs) data =
     (if \<forall>v \<in> set vs. Uint32Value eng v \<noteq> None
      then Some (data @ map (\<lambda>v. ucast (the (Uint32Value eng v))) vs)
      else None)"
  by (induction vs arbitrary: data) (auto split: option.splits)

lemma bytes_from_array_None_slot:
  "None \<in> set elems \<Longrightarrow> bytes_from_array eng elems data = None"
  by (induction elems arbitrary: data) (auto split: option.splits)

lemma bytes_from_array_failing:
  "Some v \<in> set elems \<Longrightarrow> Uint32Value eng v = None \<Longrightarrow> bytes_from_array eng elems data = None"
  by (induction elems arbitrary: data) (auto split: option.splits)

lemma Uint32Value_Number: "Uint32Value eng (Number d) = Some (ToUint32 d)"
  by (simp add: Uint32Value_def ToNumber_def)

lemma unat_ucast_byte: "unat (ucast (w :: 32 word) :: 8 word) = unat w mod 256"
  by (simp add: unsigned_ucast_eq take_bit_eq_mod)

lemma ucast_minus_1_byte: "(ucast (- 1 :: 32 word) :: 8 word) = 255"
  by (simp add: unsigned_minus_1_eq_mask mask_eq_exp_minus_1)

lemma numeric_slots:
  assumes "\<forall>s \<in> set elems. \<exists>d. s = Some (Number d)"
  shows "\<exists>vs. elems = map Some vs \<and> (\<forall>v \<in> set vs. Uint32Value eng v \<noteq> None)"
proof -
  have "\<forall>s \<in> set elems. s = Some (the s) \<and> Uint32Value eng (the s) \<noteq> None"
    using assms by (auto simp: Uint32Value_Number)
  then have "elems = map Some (map the elems) \<and>
      (\<forall>v \<in> set (map the elems). Uint32Value eng v \<noteq> None)"
    by (auto simp: map_idI)
  then show ?thesis by blast
qed

lemma bytes_try_get_values:
  "length vs \<le> 1048576 \<Longrightarrow>
     gum_v8_bytes_try_get eng (Array (map Some vs)) =
       (if \<forall>v \<in> set vs. Uint32Value eng v \<noteq> None
        then Some (map (\<lambda>v. ucast (the (Uint32Value eng v))) vs)
        else None)"
  by (simp add: gum_v8_bytes_try_get_def GUM_MAX_SEND_ARRAY_LENGTH_def bytes_from_array_values)

lemma bytes_try_get_too_long:
  "length elems > 1048576 \<Longrightarrow> gum_v8_bytes_try_get eng (Array elems) = None"
  by (simp add: gum_v8_bytes_try_get_def GUM_MAX_SEND_ARRAY_LENGTH_def)

lemma bytes_try_get_bad_slot:
  assumes "elem \<in> set elems"
    and "elem = None \<or> (\<exists>v. elem = Some v \<and> Uint32Value eng v = None)"
  shows "gum_v8_bytes_try_get eng (Array elems) = None"
  using assms bytes_from_array_None_slot [of elems eng "[]"]
    bytes_from_array_failing [of _ elems eng "[]"]
  by (auto simp: gum_v8_bytes_try_get_def)

lemma bytes_get_None:
  "gum_v8_bytes_try_get eng val = None \<Longrightarrow>
     gum_v8_bytes_get eng val = Inl (Throw ''unsupported data value'')"
  by (simp add: gum_v8_bytes_get_def)

text \<open>
  C3, as stated, fails: an element outside 0..255 and an element that is not a number
  do not fail the conversion. The array [256, -1, undefined, true] converts to the
  bytes 0, 255, 0, 1, whatever the engine does on strings and objects.
\<close>

theorem bytes_out_of_range_elements_accepted:
  "\<forall>eng. gum_v8_bytes_try_get eng
      (Array [Some (Number (Finite 256)), Some (Number (Finite (- 1))), Some Undefined,
              Some (Boolean True)]) = Some [0, 255, 0, 1]"
  by (simp add: gum_v8_bytes_try_get_def GUM_MAX_SEND_ARRAY_LENGTH_def Uint32Value_def
      ToNumber_def ToUint32_def trunc_def ucast_minus_1_byte)

text \<open>
  C3, amended: on an array value, \<^verbatim>\<open>_gum_v8_bytes_try_get\<close> succeeds on every array of
  numbers of length 1,048,576 (and of any smaller length), returning a buffer of that
  length; on every array of length 1,048,577 (and of any greater length) it returns no
  buffer and \<^verbatim>\<open>_gum_v8_bytes_get\<close> fails with UnsupportedDataValue; and an element that
  cannot be read, or whose unsigned 32-bit coercion fails, makes the whole conversion
  fail in the same way, with no partial buffer returned. Elements outside 0..255 are
  not refused.
\<close>

theorem bytes_fuzzy_array:
  "(length elems \<le> 1048576 \<and> (\<forall>s \<in> set elems. \<exists>d. s = Some (Number d)) \<longrightarrow>
      (\<exists>data. gum_v8_bytes_try_get eng (Array elems) = Some data \<and>
         length data = length elems \<and>
         gum_v8_bytes_get eng (Array elems) = Inr data \<and>
         gum_v8_bytes_parse eng (Array elems) = Inr data)) \<and>
   (length elems > 1048576 \<longrightarrow>
      gum_v8_bytes_try_get eng (Array elems) = None \<and>
      gum_v8_bytes_get eng (Array elems) = Inl (Throw ''unsupported data value'') \<and>
      gum_v8_bytes_parse eng (Array elems) = Inl (Throw ''unsupported data value'')) \<and>
   (elem \<in> set elems \<and> (elem = None \<or> (\<exists>v. elem = Some v \<and> Uint32Value eng v = None)) \<longrightarrow>
      gum_v8_bytes_try_get eng (Array elems) = None \<and>
      gum_v8_bytes_get eng (Array elems) = Inl (Throw ''unsupported data value'') \<and>
      gum_v8_bytes_parse eng (Array elems) = Inl (Throw ''unsupported data value'')) \<and>
   error_kind_of ''unsupported data value'' = Some UnsupportedDataValue"
proof -
  have parse: "gum_v8_bytes_parse eng (Array elems) = gum_v8_bytes_get eng (Array elems)"
    by (simp add: gum_v8_bytes_parse_def)
  have a: "\<exists>data. gum_v8_bytes_try_get eng (Array elems) = Some data \<and>
         length data = length elems \<and> gum_v8_bytes_get eng (Array elems) = Inr data"
    if len: "length elems \<le> 1048576" and num: "\<forall>s \<in> set elems. \<exists>d. s = Some (Number d)"
  proof -
    obtain vs where vs: "elems = map Some vs" "\<forall>v \<in> set vs. Uint32Value eng v \<noteq> None"
      using numeric_slots [OF num] by blast
    with len show ?thesis
      by (simp add: bytes_try_get_values gum_v8_bytes_get_def)
  qed
  have b: "gum_v8_bytes_try_get eng (Array elems) = None" if "length elems > 1048576"
    using that by (rule bytes_try_get_too_long)
  have c: "gum_v8_bytes_try_get eng (Array elems) = None"
    if "elem \<in> set elems" "elem = None \<or> (\<exists>v. elem = Some v \<and> Uint32Value eng v = None)"
    using that by (rule bytes_try_get_bad_slot)
  have k: "error_kind_of ''unsupported data value'' = Some UnsupportedDataValue"
    by (simp add: error_kind_of_def)
  from a b c k show ?thesis
    by (simp add: parse bytes_get_None)
qed

theorem bytes_fuzzy_array_witness:
  "length (replicate 1048576 (Some (Number (Finite 7)))) \<le> 1048576 \<and>
   (\<forall>eng. \<exists>data.
      gum_v8_bytes_try_get eng (Array (replicate 1048576 (Some (Number (Finite 7))))) = Some data \<and>
      length data = 1048576) \<and>
   length (replicate 1048577 (Some (Number (Finite 7)))) > 1048576 \<and>
   (\<forall>eng. gum_v8_bytes_get eng (Array (replicate 1048577 (Some (Number (Finite 7))))) =
      Inl (Throw ''unsupported data value'')) \<and>
   (\<forall>eng. gum_v8_bytes_get eng (Array [Some (Number (Finite 7)), Some Symbol]) =
      Inl (Throw ''unsupported data value''))"
proof -
  have n: "\<forall>s \<in> set (replicate 1048576 (Some (Number (Finite 7)))). \<exists>d. s = Some (Number d)"
    by simp
  have sym: "Uint32Value eng Symbol = None" for eng
    by (simp add: Uint32Value_def ToNumber_def)
  have a: "\<exists>data.
      gum_v8_bytes_try_get eng (Array (replicate 1048576 (Some (Number (Finite 7))))) = Some data \<and>
      length data = 1048576" for eng
    using n bytes_fuzzy_array [of "replicate 1048576 (Some (Number (Finite 7)))" eng]
    by auto
  have b: "gum_v8_bytes_get eng (Array (replicate 1048577 (Some (Number (Finite 7))))) =
      Inl (Throw ''unsupported data value'')" for eng
    using bytes_fuzzy_array [of "replicate 1048577 (Some (Number (Finite 7)))" eng]
    by simp
  have c: "gum_v8_bytes_get eng (Array [Some (Number (Finite 7)), Some Symbol]) =
      Inl (Throw ''unsupported data value'')" for eng
    using sym [of eng]
      bytes_fuzzy_array [of "[Some (Number (Finite 7)), Some Symbol]" eng "Some Symbol"]
    by simp
  from a b c show ?thesis by simp
qed

lemma bytes_from_array_slots:
  "bytes_from_array eng elems data =
     (if \<forall>s \<in> set elems. \<exists>v. s = Some v \<and> Uint32Value eng v \<noteq> None
      then Some (data @ map (\<lambda>s. ucast (the (Uint32Value eng (the s)))) elems)
      else None)"
  by (induction elems arbitrary: data) (auto split: option.splits)

lemma bytes_try_get_slots:
  "length elems \<le> 1048576 \<Longrightarrow>
     gum_v8_bytes_try_get eng (Array elems) =
       (if \<forall>s \<in> set elems. \<exists>v. s = Some v \<and> Uint32Value eng v \<noteq> None
        then Some (map (\<lambda>s. ucast (the (Uint32Value eng (the s)))) elems)
        else None)"
  by (simp add: gum_v8_bytes_try_get_def GUM_MAX_SEND_ARRAY_LENGTH_def bytes_from_array_slots)

text \<open>
  C10, as stated, fails: an element can fail the conversion although no coercion
  fails. In the array [1, e], where reading e throws, the only element value is 1, its
  unsigned 32-bit coercion succeeds, and the conversion returns no buffer.
\<close>

theorem bytes_unreadable_element_fails:
  "\<forall>eng. Uint32Value eng (Number (Finite 1)) = Some 1 \<and>
     gum_v8_bytes_try_get eng (Array [Some (Number (Finite 1)), None]) = None \<and>
     gum_v8_bytes_get eng (Array [Some (Number (Finite 1)), None]) =
       Inl (Throw ''unsupported data value'')"
  by (simp add: gum_v8_bytes_get_def gum_v8_bytes_try_get_def GUM_MAX_SEND_ARRAY_LENGTH_def
      Uint32Value_def ToNumber_def ToUint32_def trunc_def)

text \<open>
  C10, amended: in the array case of \<^verbatim>\<open>_gum_v8_bytes_try_get\<close>, each element is first read
  from the array, then goes through the engine's unsigned 32-bit coercion, and is then
  cut to its low 8 bits. On an array of at most 1,048,576 elements that can all be read
  and whose coercions all succeed, the conversion succeeds and byte i is the coerced
  value of element i modulo 256; the coercion succeeds on every number, above 255 and
  negative ones included. An element fails the conversion exactly when reading it
  throws or its coercion fails: when the conversion of an array within the length limit
  fails, one of its elements is of that kind, and one such element fails the conversion
  of any array.
\<close>

theorem bytes_array_elements:
  "(length elems \<le> 1048576 \<and>
    (\<forall>s \<in> set elems. \<exists>v. s = Some v \<and> Uint32Value eng v \<noteq> None) \<longrightarrow>
      (\<exists>data. gum_v8_bytes_try_get eng (Array elems) = Some data \<and>
         length data = length elems \<and>
         (\<forall>i < length elems. \<exists>v u. elems ! i = Some v \<and> Uint32Value eng v = Some u \<and>
             data ! i = ucast u \<and> unat (data ! i) = unat u mod 256))) \<and>
   (length elems \<le> 1048576 \<and> gum_v8_bytes_try_get eng (Array elems) = None \<longrightarrow>
      (\<exists>s \<in> set elems. s = None \<or> (\<exists>v. s = Some v \<and> Uint32Value eng v = None))) \<and>
   (elem \<in> set elems \<and> (elem = None \<or> (\<exists>v. elem = Some v \<and> Uint32Value eng v = None)) \<longrightarrow>
      gum_v8_bytes_try_get eng (Array elems) = None) \<and>
   Uint32Value eng (Number d) = Some (ToUint32 d)"
proof -
  have a: "\<exists>data. gum_v8_bytes_try_get eng (Array elems) = Some data \<and>
         length data = length elems \<and>
         (\<forall>i < length elems. \<exists>v u. elems ! i = Some v \<and> Uint32Value eng v = Some u \<and>
             data ! i = ucast u \<and> unat (data ! i) = unat u mod 256)"
    if len: "length elems \<le> 1048576"
      and ok: "\<forall>s \<in> set elems. \<exists>v. s = Some v \<and> Uint32Value eng v \<noteq> None"
  proof -
    define data :: "8 word list"
      where "data = map (\<lambda>s. ucast (the (Uint32Value eng (the s)))) elems"
    have "\<exists>v u. elems ! i = Some v \<and> Uint32Value eng v = Some u \<and>
        data ! i = ucast u \<and> unat (data ! i) = unat u mod 256"
      if i: "i < length elems" for i
    proof -
      from i ok obtain v where v: "elems ! i = Some v" "Uint32Value eng v \<noteq> None"
        by (metis nth_mem)
      then obtain u where u: "Uint32Value eng v = Some u"
        by blast
      from i v u have "data ! i = ucast u"
        by (simp add: data_def)
      with v u show ?thesis
        by (simp add: unat_ucast_byte)
    qed
    moreover have "gum_v8_bytes_try_get eng (Array elems) = Some data"
      using len ok by (simp add: bytes_try_get_slots data_def)
    moreover have "length data = length elems"
      by (simp add: data_def)
    ultimately show ?thesis by blast
  qed
  have b: "\<exists>s \<in> set elems. s = None \<or> (\<exists>v. s = Some v \<and> Uint32Value eng v = None)"
    if len: "length elems \<le> 1048576" and none: "gum_v8_bytes_try_get eng (Array elems) = None"
  proof -
    from len none
    have "\<not> (\<forall>s \<in> set elems. \<exists>v. s = Some v \<and> Uint32Value eng v \<noteq> None)"
      by (auto simp: bytes_try_get_slots split: if_splits)
    then obtain s where s: "s \<in> set elems" "\<not> (\<exists>v. s = Some v \<and> Uint32Value eng v \<noteq> None)"
      by blast
    then have "s = None \<or> (\<exists>v. s = Some v \<and> Uint32Value eng v = None)"
      by (cases s) auto
    with s show ?thesis by blast
  qed
  have c: "gum_v8_bytes_try_get eng (Array elems) = None"
    if "elem \<in> set elems" "elem = None \<or> (\<exists>v. elem = Some v \<and> Uint32Value eng v = None)"
    using that by (rule bytes_try_get_bad_slot)
  from a b c show ?thesis
    by (simp add: Uint32Value_Number)
qed

theorem bytes_array_elements_witness:
  "Uint32Value \<lparr>string_to_number = (\<lambda>s. NaN), object_to_number = (\<lambda>v. None)\<rparr>
     (Number (Finite 256)) = Some 256 \<and>
   Uint32Value \<lparr>string_to_number = (\<lambda>s. NaN), object_to_number = (\<lambda>v. None)\<rparr>
     (Number (Finite (- 1))) = Some (- 1) \<and>
   Uint32Value \<lparr>string_to_number = (\<lambda>s. NaN), object_to_number = (\<lambda>v. None)\<rparr>
     (Number (Finite 65)) = Some 65 \<and>
   gum_v8_bytes_try_get \<lparr>string_to_number = (\<lambda>s. NaN), object_to_number = (\<lambda>v. None)\<rparr>
     (Array [Some (Number (Finite 256)), Some (Number (Finite (- 1))), Some (Number (Finite 65))]) =
     Some [0, 255, 65] \<and>
   Uint32Value \<lparr>string_to_number = (\<lambda>s. NaN), object_to_number = (\<lambda>v. None)\<rparr> Symbol = None \<and>
   gum_v8_bytes_try_get \<lparr>string_to_number = (\<lambda>s. NaN), object_to_number = (\<lambda>v. None)\<rparr>
     (Array [Some (Number (Finite 1)), Some Symbol]) = None \<and>
   gum_v8_bytes_try_get \<lparr>string_to_number = (\<lambda>s. NaN), object_to_number = (\<lambda>v. None)\<rparr>
     (Array [Some (Number (Finite 1)), None]) = None"
  using bytes_array_elements
      [of "[Some (Number (Finite 256)), Some (Number (Finite (- 1))), Some (Number (Finite 65))]"
        "\<lparr>string_to_number = (\<lambda>s. NaN), object_to_number = (\<lambda>v. None)\<rparr>"]
    bytes_array_elements
      [of "[Some (Number (Finite 1)), Some Symbol]"
        "\<lparr>string_to_number = (\<lambda>s. NaN), object_to_number = (\<lambda>v. None)\<rparr>" "Some Symbol"]
    bytes_array_elements
      [of "[Some (Number (Finite 1)), None]"
        "\<lparr>string_to_number = (\<lambda>s. NaN), object_to_number = (\<lambda>v. None)\<rparr>" None]
  by (simp add: gum_v8_bytes_try_get_def GUM_MAX_SEND_ARRAY_LENGTH_def Uint32Value_def
      ToNumber_def ToUint32_def trunc_def ucast_minus_1_byte)

section \<open>Native resources\<close>

lemma native_resource_new_fields:
  "gum_v8_native_resource_new data sz notify core = (resource, core1) \<Longrightarrow>
     resource = next_slice core \<and>
     external_memory core1 = external_memory core + sz \<and>
     native_resources core1 = insert resource (native_resources core) \<and>
     slices core1 = (slices core)(resource \<mapsto>
        \<lparr>res_instance = next_handle core, res_data = data, res_size = sz, res_notify = notify\<rparr>) \<and>
     weak_handles core1 = (weak_handles core)(next_handle core \<mapsto> resource) \<and>
     notified core1 = notified core \<and>
     key_destroy_is_resource_free core1 = key_destroy_is_resource_free core"
  by (auto simp: gum_v8_native_resource_new_def Let_def)

lemma finalize_after_new:
  assumes new: "gum_v8_native_resource_new data sz notify core = (resource, core1)"
    and kd: "key_destroy_is_resource_free core"
  shows "finalize_native_resource_handle (next_handle core) core1 =
     core1\<lparr>native_resources := native_resources core1 - {resource},
            external_memory := external_memory core,
            weak_handles := (weak_handles core1)(next_handle core := None),
            notified := notified core @ (case notify of None \<Rightarrow> [] | Some cb \<Rightarrow> [(cb, data)]),
            slices := (slices core1)(resource := None)\<rparr>"
  using native_resource_new_fields [OF new] kd
  by (cases notify)
    (simp_all add: finalize_native_resource_handle_def gum_v8_native_resource_on_weak_notify_def
      g_hash_table_remove_native_resource_def gum_v8_native_resource_free_def Let_def)

text \<open>
  C5: registering a native resource raises the external-memory counter by \<open>size\<close> at
  once and adds a new record to the tracking set. When the engine finalizes the owning
  handle, the counter is lowered by \<open>size\<close>, the destructor callback, if there is one,
  is called once with the registered address, and the record leaves the tracking set;
  finalizing the handle again, or delivering the notification again, changes nothing.
  The tracking set is taken to have been created with \<^verbatim>\<open>_gum_v8_native_resource_free\<close>
  as its key destructor.
\<close>

theorem native_resource_lifecycle:
  assumes "resource_core_ok core" and "key_destroy_is_resource_free core"
  shows "\<exists>resource core1 h.
     gum_v8_native_resource_new data sz notify core = (resource, core1) \<and>
     external_memory core1 = external_memory core + sz \<and>
     resource \<notin> native_resources core \<and>
     resource \<in> native_resources core1 \<and>
     slices core1 resource =
       Some \<lparr>res_instance = h, res_data = data, res_size = sz, res_notify = notify\<rparr> \<and>
     weak_handles core1 h = Some resource \<and>
     external_memory (finalize_native_resource_handle h core1) = external_memory core1 - sz \<and>
     notified (finalize_native_resource_handle h core1) =
       notified core1 @ (case notify of None \<Rightarrow> [] | Some cb \<Rightarrow> [(cb, data)]) \<and>
     resource \<notin> native_resources (finalize_native_resource_handle h core1) \<and>
     slices (finalize_native_resource_handle h core1) resource = None \<and>
     finalize_native_resource_handle h (finalize_native_resource_handle h core1) =
       finalize_native_resource_handle h core1 \<and>
     gum_v8_native_resource_on_weak_notify resource (finalize_native_resource_handle h core1) =
       finalize_native_resource_handle h core1"
proof -
  obtain resource core1 where new: "gum_v8_native_resource_new data sz notify core = (resource, core1)"
    by (cases "gum_v8_native_resource_new data sz notify core") auto
  note f = native_resource_new_fields [OF new]
  define core2 where "core2 = finalize_native_resource_handle (next_handle core) core1"
  have core2: "core2 =
     core1\<lparr>native_resources := native_resources core1 - {resource},
            external_memory := external_memory core,
            weak_handles := (weak_handles core1)(next_handle core := None),
            notified := notified core @ (case notify of None \<Rightarrow> [] | Some cb \<Rightarrow> [(cb, data)]),
            slices := (slices core1)(resource := None)\<rparr>"
    unfolding core2_def using new assms(2) by (rule finalize_after_new)
  have fresh: "resource \<notin> native_resources core"
    using assms(1) f by (simp add: resource_core_ok_def)
  have again: "finalize_native_resource_handle (next_handle core) core2 = core2"
    by (simp add: core2 finalize_native_resource_handle_def)
  have again': "gum_v8_native_resource_on_weak_notify resource core2 = core2"
    by (simp add: core2 gum_v8_native_resource_on_weak_notify_def
        g_hash_table_remove_native_resource_def)
  have "gum_v8_native_resource_new data sz notify core = (resource, core1) \<and>
     external_memory core1 = external_memory core + sz \<and>
     resource \<notin> native_resources core \<and>
     resource \<in> native_resources core1 \<and>
     slices core1 resource =
       Some \<lparr>res_instance = next_handle core, res_data = data, res_size = sz,
             res_notify = notify\<rparr> \<and>
     weak_handles core1 (next_handle core) = Some resource \<and>
     external_memory core2 = external_memory core1 - sz \<and>
     notified core2 = notified core1 @ (case notify of None \<Rightarrow> [] | Some cb \<Rightarrow> [(cb, data)]) \<and>
     resource \<notin> native_resources core2 \<and>
     slices core2 resource = None \<and>
     finalize_native_resource_handle (next_handle core) core2 = core2 \<and>
     gum_v8_native_resource_on_weak_notify resource core2 = core2"
    using new f fresh again again' by (simp add: core2)
  then show ?thesis
    unfolding core2_def by blast
qed

theorem native_resource_lifecycle_witness:
  "resource_core_ok empty_resource_core \<and>
   key_destroy_is_resource_free empty_resource_core \<and>
   (\<exists>resource core1 h.
      gum_v8_native_resource_new 0x1000 128 (Some 1) empty_resource_core = (resource, core1) \<and>
      external_memory core1 = 128 \<and>
      weak_handles core1 h = Some resource \<and>
      external_memory (finalize_native_resource_handle h core1) = 0 \<and>
      notified (finalize_native_resource_handle h core1) = [(1, 0x1000)] \<and>
      resource \<notin> native_resources (finalize_native_resource_handle h core1) \<and>
      finalize_native_resource_handle h (finalize_native_resource_handle h core1) =
        finalize_native_resource_handle h core1)"
proof -
  have ok: "resource_core_ok empty_resource_core"
    by (simp add: resource_core_ok_def empty_resource_core_def)
  have kd: "key_destroy_is_resource_free empty_resource_core"
    by (simp add: empty_resource_core_def)
  have e: "external_memory empty_resource_core = 0" "notified empty_resource_core = []"
    by (simp_all add: empty_resource_core_def)
  from native_resource_lifecycle [OF ok kd, of "0x1000" 128 "Some 1"]
  obtain resource core1 h where
    "gum_v8_native_resource_new 0x1000 128 (Some 1) empty_resource_core = (resource, core1)"
    "external_memory core1 = external_memory empty_resource_core + 128"
    "weak_handles core1 h = Some resource"
    "external_memory (finalize_native_resource_handle h core1) = external_memory core1 - 128"
    "notified (finalize_native_resource_handle h core1) =
       notified core1 @ (case Some 1 of None \<Rightarrow> [] | Some cb \<Rightarrow> [(cb, 0x1000)])"
    "resource \<notin> native_resources (finalize_native_resource_handle h core1)"
    "finalize_native_resource_handle h (finalize_native_resource_handle h core1) =
       finalize_native_resource_handle h core1"
    "notified core1 = notified empty_resource_core"
    using native_resource_new_fields by blast
  then have "gum_v8_native_resource_new 0x1000 128 (Some 1) empty_resource_core = (resource, core1) \<and>
      external_memory core1 = 128 \<and>
      weak_handles core1 h = Some resource \<and>
      external_memory (finalize_native_resource_handle h core1) = 0 \<and>
      notified (finalize_native_resource_handle h core1) = [(1, 0x1000)] \<and>
      resource \<notin> native_resources (finalize_native_resource_handle h core1) \<and>
      finalize_native_resource_handle h (finalize_native_resource_handle h core1) =
        finalize_native_resource_handle h core1"
    by (simp add: e)
  with ok kd show ?thesis by blast
qed

section \<open>CPU context snapshots\<close>

lemma cpu_context_free_later_result:
  assumes "globals st h = Some obj" and "objects st obj = Some (original, m)"
    and "memory st original = Some regs"
  shows "gum_v8_cpu_context_free_later h st =
     Some (st\<lparr>memory := (memory st)(next_address st \<mapsto> regs),
               next_address := Suc (next_address st),
               objects := (objects st)(obj \<mapsto> (next_address st, False)),
               wrappers := (wrappers st)(next_wrapper st \<mapsto>
                  \<lparr>wrapper_instance = h, wrapper_cpu_context = next_address st\<rparr>),
               next_wrapper := Suc (next_wrapper st),
               weak := (weak st)(h \<mapsto> next_wrapper st)\<rparr>)"
  using assms by (simp add: gum_v8_cpu_context_free_later_def Let_def)

text \<open>
  C8: when a handle to a CpuContext object over a live register structure is scheduled
  for deferred release, the structure is copied to newly allocated storage, distinct
  from the original, the object's pointer field is set to the copy and its mutable flag
  is cleared. Whatever the instrumentation engine later writes to the original
  structure, or if it releases it, every register read through the object gives the
  value the register had when the copy was made. Finalizing the handle frees the copy
  once; a second finalization changes nothing.
\<close>

theorem cpu_context_free_later_snapshot:
  assumes "cpu_state_ok st" and "globals st h = Some obj"
    and "objects st obj = Some (original, m)" and "memory st original = Some regs"
  shows "\<exists>st1 copy.
     gum_v8_cpu_context_free_later h st = Some st1 \<and>
     memory st copy = None \<and> copy \<noteq> original \<and>
     memory st1 copy = Some regs \<and>
     objects st1 obj = Some (copy, False) \<and>
     (\<forall>later reg. cpu_context_read (native_write original later st1) obj reg = Some (regs reg)) \<and>
     freed (finalize_cpu_context_handle h st1) = freed st @ [copy] \<and>
     memory (finalize_cpu_context_handle h st1) copy = None \<and>
     finalize_cpu_context_handle h (finalize_cpu_context_handle h st1) =
       finalize_cpu_context_handle h st1"
proof -
  define copy where "copy = next_address st"
  define st1 where "st1 =
     st\<lparr>memory := (memory st)(copy \<mapsto> regs),
        next_address := Suc copy,
        objects := (objects st)(obj \<mapsto> (copy, False)),
        wrappers := (wrappers st)(next_wrapper st \<mapsto>
           \<lparr>wrapper_instance = h, wrapper_cpu_context = copy\<rparr>),
        next_wrapper := Suc (next_wrapper st),
        weak := (weak st)(h \<mapsto> next_wrapper st)\<rparr>"
  have run: "gum_v8_cpu_context_free_later h st = Some st1"
    unfolding st1_def copy_def using assms(2-4) by (rule cpu_context_free_later_result)
  have unused: "memory st copy = None"
    using assms(1) by (simp add: cpu_state_ok_def copy_def)
  with assms(4) have distinct: "copy \<noteq> original"
    by auto
  have reads: "cpu_context_read (native_write original later st1) obj reg = Some (regs reg)"
    for later reg
    using distinct by (simp add: cpu_context_read_def native_write_def st1_def)
  define st2 where "st2 = finalize_cpu_context_handle h st1"
  have st2: "st2 =
     st1\<lparr>globals := (globals st1)(h := None), weak := (weak st1)(h := None),
         memory := (memory st1)(copy := None), freed := freed st @ [copy],
         wrappers := (wrappers st1)(next_wrapper st := None)\<rparr>"
    by (simp add: st2_def finalize_cpu_context_handle_def gum_cpu_context_on_weak_notify_def
        st1_def Let_def)
  have again: "finalize_cpu_context_handle h st2 = st2"
    by (simp add: st2 finalize_cpu_context_handle_def)
  have "gum_v8_cpu_context_free_later h st = Some st1 \<and>
     memory st copy = None \<and> copy \<noteq> original \<and>
     memory st1 copy = Some regs \<and>
     objects st1 obj = Some (copy, False) \<and>
     (\<forall>later reg. cpu_context_read (native_write original later st1) obj reg = Some (regs reg)) \<and>
     freed st2 = freed st @ [copy] \<and>
     memory st2 copy = None \<and>
     finalize_cpu_context_handle h st2 = st2"
    using run unused distinct reads again by (simp add: st2) (simp add: st1_def)
  then show ?thesis
    unfolding st2_def by blast
qed

theorem cpu_context_free_later_snapshot_witness:
  "cpu_state_ok
     \<lparr>memory = [5 \<mapsto> (\<lambda>r. 7)], next_address = 6, objects = [0 \<mapsto> (5, True)],
      globals = [0 \<mapsto> 0], weak = Map.empty, wrappers = Map.empty, next_wrapper = 0,
      freed = []\<rparr> \<and>
   (\<exists>st1.
      gum_v8_cpu_context_free_later 0
        \<lparr>memory = [5 \<mapsto> (\<lambda>r. 7)], next_address = 6, objects = [0 \<mapsto> (5, True)],
         globals = [0 \<mapsto> 0], weak = Map.empty, wrappers = Map.empty, next_wrapper = 0,
         freed = []\<rparr> = Some st1 \<and>
      objects st1 0 = Some (6, False) \<and>
      cpu_context_read (native_write 5 (Some (\<lambda>r. 99)) st1) 0 3 = Some 7 \<and>
      cpu_context_read (native_write 5 None st1) 0 3 = Some 7 \<and>
      freed (finalize_cpu_context_handle 0 st1) = [6] \<and>
      finalize_cpu_context_handle 0 (finalize_cpu_context_handle 0 st1) =
        finalize_cpu_context_handle 0 st1)"
proof -
  define st where "st =
     \<lparr>memory = [5 \<mapsto> (\<lambda>r. 7 :: 64 word)], next_address = 6, objects = [0 \<mapsto> (5 :: nat, True)],
      globals = [0 :: nat \<mapsto> 0 :: nat], weak = (Map.empty :: nat \<rightharpoonup> nat),
      wrappers = (Map.empty :: nat \<rightharpoonup> GumCpuContextWrapper), next_wrapper = 0,
      freed = []\<rparr>"
  have ok: "cpu_state_ok st"
    by (simp add: cpu_state_ok_def st_def)
  have g: "globals st 0 = Some 0" and o: "objects st 0 = Some (5, True)"
    and m: "memory st 5 = Some (\<lambda>r. 7)"
    by (simp_all add: st_def)
  from cpu_context_free_later_snapshot [OF ok g o m]
  obtain st1 copy where r:
    "gum_v8_cpu_context_free_later 0 st = Some st1"
    "objects st1 0 = Some (copy, False)"
    "\<forall>later reg. cpu_context_read (native_write 5 later st1) 0 reg = Some 7"
    "freed (finalize_cpu_context_handle 0 st1) = freed st @ [copy]"
    "finalize_cpu_context_handle 0 (finalize_cpu_context_handle 0 st1) =
       finalize_cpu_context_handle 0 st1"
    by blast
  have "st1 = the (gum_v8_cpu_context_free_later 0 st)"
    using r(1) by simp
  then have "objects st1 0 = Some (6, False)"
    by (simp add: gum_v8_cpu_context_free_later_def st_def Let_def)
  with r(2) have "copy = 6" by simp
  with r have "gum_v8_cpu_context_free_later 0 st = Some st1 \<and>
      objects st1 0 = Some (6, False) \<and>
      cpu_context_read (native_write 5 (Some (\<lambda>r. 99)) st1) 0 3 = Some 7 \<and>
      cpu_context_read (native_write 5 None st1) 0 3 = Some 7 \<and>
      freed (finalize_cpu_context_handle 0 st1) = [6] \<and>
      finalize_cpu_context_handle 0 (finalize_cpu_context_handle 0 st1) =
        finalize_cpu_context_handle 0 st1"
    by (simp add: st_def)
  with ok show ?thesis
    unfolding st_def by blast
qed

section \<open>The transactional scope of the argument parser\<close>

lemma fold_heap_release:
  "released (fold (heap_release d) xs h) = released h @ map (Pair d) xs \<and>
   refcount (fold (heap_release d) xs h) a = refcount h a - int (count_list xs a) \<and>
   cells (fold (heap_release d) xs h) = cells h \<and>
   next_free (fold (heap_release d) xs h) = next_free h"
  by (induction xs arbitrary: h) (auto simp: heap_release_def)

lemma scope_destructor_uncommitted:
  assumes "\<not> committed sc"
  shows "released (scope_destructor sc h) = released h @ staged_releases sc"
    and "refcount (scope_destructor sc h) a = refcount h a - int (count_list (staged sc) a)"
    and "cells (scope_destructor sc h) = cells h"
  using assms
  by (simp_all add: scope_destructor_def fold_heap_release staged_releases_def staged_def)

lemma scope_destructor_committed: "committed sc \<Longrightarrow> scope_destructor sc h = h"
  by (simp add: scope_destructor_def)

lemma parse_inv_cong:
  "scope st' = scope st \<Longrightarrow> heap st' = heap st \<Longrightarrow> parse_inv h0 st' = parse_inv h0 st"
  by (simp add: parse_inv_def)

lemma parse_inv_write_slots [simp]: "parse_inv h0 (write_slots new st) = parse_inv h0 st"
  by (rule parse_inv_cong) (simp_all add: write_slots_def)

lemma parse_inv_stage_new:
  assumes inv: "parse_inv h0 st" and ok: "heap_ok h0"
    and new: "heap_new cell (heap st) = (a, h')"
    and sc: "staged sc' = xs @ a # ys" "staged (scope st) = xs @ ys"
      "set (staged_releases sc') = insert (destructor_of cell, a) (set (staged_releases (scope st)))"
      "committed sc' = committed (scope st)"
  shows "parse_inv h0 (st\<lparr>scope := sc', heap := h'\<rparr>)"
proof -
  have a: "a = next_free (heap st)"
    and h': "h' = (heap st)\<lparr>refcount := (refcount (heap st))(a := 1),
                cells := (cells (heap st))(a \<mapsto> cell), next_free := Suc a\<rparr>"
    using new by (auto simp: heap_new_def Let_def)
  from inv have below: "\<forall>x \<in> set (staged (scope st)). x < a"
    by (simp add: parse_inv_def a)
  then have nostage: "count_list (staged (scope st)) a = 0"
    by (auto simp: count_list_0_iff)
  from inv ok have zero: "refcount h0 a = 0"
    by (simp add: parse_inv_def heap_ok_def a)
  have cnt: "count_list (staged sc') x = count_list (staged (scope st)) x + (if x = a then 1 else 0)"
    for x
    by (simp add: sc)
  have set': "set (staged sc') = insert a (set (staged (scope st)))"
    by (auto simp: sc)
  have kinds: "\<exists>cell'. cells h' x = Some cell' \<and> destructor_of cell' = d"
    if "(d, x) \<in> set (staged_releases sc')" for d x
  proof (cases "(d, x) = (destructor_of cell, a)")
    case True
    then show ?thesis by (simp add: h')
  next
    case False
    with that have old: "(d, x) \<in> set (staged_releases (scope st))"
      by (auto simp: sc)
    then have "x \<in> set (staged (scope st))"
      by (auto simp: staged_releases_def staged_def)
    with below have "x \<noteq> a" by auto
    moreover from inv old have "\<exists>cell'. cells (heap st) x = Some cell' \<and> destructor_of cell' = d"
      by (auto simp: parse_inv_def)
    ultimately show ?thesis by (simp add: h')
  qed
  from inv have i1: "\<not> committed (scope st)" and i2: "released (heap st) = released h0"
    and i3: "heap_ok (heap st)" and i4: "next_free h0 \<le> next_free (heap st)"
    and i5: "\<And>x. refcount (heap st) x = refcount h0 x + int (count_list (staged (scope st)) x)"
    by (simp_all add: parse_inv_def)
  have c1: "\<not> committed sc'" using i1 by (simp add: sc)
  have c2: "released h' = released h0" using i2 by (simp add: h')
  have c3: "heap_ok h'" using i3 by (simp add: h' heap_ok_def a)
  have c4: "next_free h0 \<le> next_free h'" using i4 by (simp add: h' a)
  have c5: "refcount h' x = refcount h0 x + int (count_list (staged sc') x)" for x
    using i5 [of x] nostage zero by (simp add: h' cnt)
  have c6: "\<forall>x \<in> set (staged sc'). x < next_free h'"
    using below by (auto simp: set' h')
  have c7: "\<forall>(d, x) \<in> set (staged_releases sc').
      \<exists>cell'. cells h' x = Some cell' \<and> destructor_of cell' = d"
    using kinds by blast
  show ?thesis
    unfolding parse_inv_def using c1 c2 c3 c4 c5 c6 c7 by simp
qed


lemma parse_inv_stage_ref:
  assumes inv: "parse_inv h0 st"
    and ref: "gum_match_pattern_ref p (heap st) = Some h'"
  shows "parse_inv h0 (st\<lparr>scope := scope_add_match_pattern p (scope st), heap := h'\<rparr>)"
proof -
  from ref obtain s where cell: "cells (heap st) p = Some (MatchPatternCell s)"
    and live: "refcount (heap st) p > 0"
    and h': "h' = (heap st)\<lparr>refcount := (refcount (heap st))(p := refcount (heap st) p + 1)\<rparr>"
    by (auto simp: gum_match_pattern_ref_def split: option.splits heap_cell.splits if_splits)
  from inv have i1: "\<not> committed (scope st)" and i2: "released (heap st) = released h0"
    and i3: "heap_ok (heap st)" and i4: "next_free h0 \<le> next_free (heap st)"
    and i5: "\<And>x. refcount (heap st) x = refcount h0 x + int (count_list (staged (scope st)) x)"
    and i6: "\<forall>x \<in> set (staged (scope st)). x < next_free (heap st)"
    and i7: "\<forall>(d, x) \<in> set (staged_releases (scope st)).
      \<exists>cell. cells (heap st) x = Some cell \<and> destructor_of cell = d"
    by (simp_all add: parse_inv_def)
  let ?sc = "scope_add_match_pattern p (scope st)"
  have below: "p < next_free (heap st)"
    using i3 live by (auto simp: heap_ok_def not_le [symmetric])
  have c1: "\<not> committed ?sc" using i1 by (simp add: scope_add_match_pattern_def)
  have c2: "released h' = released h0" using i2 by (simp add: h')
  have c3: "heap_ok h'" using i3 below by (auto simp: h' heap_ok_def)
  have c4: "next_free h0 \<le> next_free h'" using i4 by (simp add: h')
  have c5: "refcount h' x = refcount h0 x + int (count_list (staged ?sc) x)" for x
    using i5 [of x] by (auto simp: h' staged_def scope_add_match_pattern_def)
  have c6: "\<forall>x \<in> set (staged ?sc). x < next_free h'"
    using i6 below by (auto simp: h' staged_def scope_add_match_pattern_def)
  have c7: "\<forall>(d, x) \<in> set (staged_releases ?sc).
      \<exists>cell. cells h' x = Some cell \<and> destructor_of cell = d"
    using i7 cell
    by (auto simp: h' staged_releases_def scope_add_match_pattern_def destructor_of_def)
  show ?thesis
    unfolding parse_inv_def using c1 c2 c3 c4 c5 c6 c7 by simp
qed

lemma parse_inv_converted:
  "converted r mk n st = (f, st', k) \<Longrightarrow> parse_inv h0 st \<Longrightarrow> parse_inv h0 st'"
  by (auto simp: converted_def split: sum.splits)

lemma parse_inv_case_F:
  "case_F rest arg st = (f, st', k) \<Longrightarrow> parse_inv h0 st \<Longrightarrow> parse_inv h0 st'"
  by (auto simp: case_F_def Let_def split: if_splits sum.splits prod.splits)

lemma parse_inv_case_s:
  assumes "case_s rest arg st = (f, st', k)" and "parse_inv h0 st" and "heap_ok h0"
  shows "parse_inv h0 st'"
proof (cases "(followed_by CHR ''?'' rest \<and> arg = Null) \<or> (\<forall>s. arg \<noteq> String s)")
  case True
  with assms(1,2) show ?thesis
    by (auto simp: case_s_def Let_def split: if_splits v8_value.splits)
next
  case False
  then obtain s where arg: "arg = String s" by auto
  obtain a h' where new: "heap_new (StringCell (c_str s)) (heap st) = (a, h')"
    by (cases "heap_new (StringCell (c_str s)) (heap st)") auto
  have "parse_inv h0 (st\<lparr>scope := (scope st)\<lparr>strings := a # strings (scope st)\<rparr>, heap := h'\<rparr>)"
    by (rule parse_inv_stage_new [OF assms(2,3) new, where xs = "[]"])
      (simp_all add: staged_def staged_releases_def destructor_of_def)
  with assms(1) False arg new show ?thesis
    by (auto simp: case_s_def Let_def scope_strdup_def split: if_splits)
qed

lemma parse_inv_case_R:
  assumes "case_R arg st = (f, st', k)" and "parse_inv h0 st" and "heap_ok h0"
  shows "parse_inv h0 st'"
proof (cases "gum_v8_memory_ranges_get arg")
  case (Inl e)
  with assms(1,2) show ?thesis by (simp add: case_R_def)
next
  case (Inr contents)
  obtain a h' where new: "heap_new (ArrayCell contents) (heap st) = (a, h')"
    by (cases "heap_new (ArrayCell contents) (heap st)") auto
  have "parse_inv h0 (st\<lparr>scope := scope_add_array a (scope st), heap := h'\<rparr>)"
    by (rule parse_inv_stage_new [OF assms(2,3) new, where xs = "strings (scope st)"])
      (auto simp: staged_def staged_releases_def destructor_of_def scope_add_array_def)
  with assms(1) Inr new show ?thesis
    by (auto simp: case_R_def Let_def)
qed

lemma parse_inv_case_B:
  assumes "case_B env rest arg st = (f, st', k)" and "parse_inv h0 st" and "heap_ok h0"
  shows "parse_inv h0 st'"
proof -
  define fuzzy where "fuzzy = followed_by CHR ''~'' rest"
  define rest' where "rest' = (if fuzzy then tl rest else rest)"
  define conv where "conv = (if fuzzy then gum_v8_bytes_parse (engine env) arg
                             else gum_v8_bytes_get (engine env) arg)"
  show ?thesis
  proof (cases "(followed_by CHR ''?'' rest' \<and> arg = Null) \<or> (\<exists>e. conv = Inl e)")
    case True
    with assms(1,2) show ?thesis
      by (auto simp: case_B_def Let_def fuzzy_def rest'_def conv_def split: if_splits)
  next
    case False
    then obtain contents where conv: "conv = Inr contents"
      by (cases conv) auto
    obtain a h' where new: "heap_new (BytesCell contents) (heap st) = (a, h')"
      by (cases "heap_new (BytesCell contents) (heap st)") auto
    have "parse_inv h0 (st\<lparr>scope := scope_add_bytes a (scope st), heap := h'\<rparr>)"
      by (rule parse_inv_stage_new [OF assms(2,3) new,
            where xs = "strings (scope st) @ arrays (scope st)"])
        (auto simp: staged_def staged_releases_def destructor_of_def scope_add_bytes_def)
    with assms(1) False conv new show ?thesis
      by (auto simp: case_B_def Let_def fuzzy_def rest'_def conv_def split: if_splits)
  qed
qed

lemma parse_inv_case_M:
  assumes "case_M env arg st = (f, st', k)" and "parse_inv h0 st" and "heap_ok h0"
  shows "parse_inv h0 st'"
proof (cases arg)
  case (String s)
  show ?thesis
  proof (cases "match_pattern_compiles env (c_str s)")
    case True
    obtain a h' where new: "heap_new (MatchPatternCell (c_str s)) (heap st) = (a, h')"
      by (cases "heap_new (MatchPatternCell (c_str s)) (heap st)") auto
    have "parse_inv h0 (st\<lparr>scope := scope_add_match_pattern a (scope st), heap := h'\<rparr>)"
      by (rule parse_inv_stage_new [OF assms(2,3) new,
            where xs = "strings (scope st) @ arrays (scope st) @ bytes (scope st)"])
        (auto simp: staged_def staged_releases_def destructor_of_def
          scope_add_match_pattern_def)
    with assms(1) String True new show ?thesis
      by (auto simp: case_M_def Let_def)
  next
    case False
    with assms(1,2) String show ?thesis by (simp add: case_M_def)
  qed
next
  case (MatchPattern p)
  show ?thesis
  proof (cases "gum_match_pattern_ref p (heap st)")
    case None
    with assms(1,2) MatchPattern show ?thesis by (simp add: case_M_def)
  next
    case (Some h')
    from parse_inv_stage_ref [OF assms(2) Some] assms(1) MatchPattern Some show ?thesis
      by (auto simp: case_M_def Let_def)
  qed
qed (use assms(1,2) in \<open>simp_all add: case_M_def\<close>)

lemma parse_tag_simps:
  "parse_tag env CHR ''i'' rest arg st = converted (gum_v8_int_get arg) Slot_int 0 st"
  "parse_tag env CHR ''u'' rest arg st = converted (gum_v8_uint_get arg) Slot_uint 0 st"
  "parse_tag env CHR ''q'' rest arg st =
     converted (if followed_by CHR ''~'' rest then gum_v8_int64_parse arg
                else gum_v8_int64_get arg)
       Slot_int64 (if followed_by CHR ''~'' rest then 1 else 0) st"
  "parse_tag env CHR ''Q'' rest arg st =
     converted (if followed_by CHR ''~'' rest then gum_v8_uint64_parse arg
                else gum_v8_uint64_get arg)
       Slot_uint64 (if followed_by CHR ''~'' rest then 1 else 0) st"
  "parse_tag env CHR ''z'' rest arg st = converted (gum_v8_ssize_get arg) Slot_ssize 0 st"
  "parse_tag env CHR ''Z'' rest arg st = converted (gum_v8_size_get arg) Slot_size 0 st"
  "parse_tag env CHR ''n'' rest arg st =
     converted (case arg of Number v \<Rightarrow> Inr v | _ \<Rightarrow> Inl (Throw ''expected a number''))
       Slot_double 0 st"
  "parse_tag env CHR ''t'' rest arg st =
     converted (case arg of Boolean b \<Rightarrow> Inr b | _ \<Rightarrow> Inl (Throw ''expected a boolean''))
       Slot_boolean 0 st"
  "parse_tag env CHR ''p'' rest arg st =
     converted (if followed_by CHR ''~'' rest then gum_v8_native_pointer_parse arg
                else gum_v8_native_pointer_get arg)
       Slot_pointer (if followed_by CHR ''~'' rest then 1 else 0) st"
  "parse_tag env CHR ''X'' rest arg st =
     converted (case arg of External p \<Rightarrow> Inr p
                | _ \<Rightarrow> Inl (Throw ''expected an external pointer''))
       Slot_pointer 0 st"
  "parse_tag env CHR ''s'' rest arg st = case_s rest arg st"
  "parse_tag env CHR ''S'' rest arg st =
     converted (case arg of String arg_utf8 \<Rightarrow> Inr (c_str arg_utf8)
                | _ \<Rightarrow> Inl (Throw ''expected a string''))
       Slot_std_string 0 st"
  "parse_tag env CHR ''r'' rest arg st = converted (gum_v8_memory_range_get arg) Slot_range 0 st"
  "parse_tag env CHR ''R'' rest arg st = case_R arg st"
  "parse_tag env CHR ''m'' rest arg st =
     converted (gum_v8_page_protection_get arg) Slot_page_protection 0 st"
  "parse_tag env CHR ''V'' rest arg st = converted (Inr arg) Slot_value 0 st"
  "parse_tag env CHR ''O'' rest arg st =
     converted (if followed_by CHR ''?'' rest \<and> arg = Null then Inr None
                else if IsObject arg then Inr (Some arg)
                else Inl (Throw ''expected an object''))
       Slot_object (if followed_by CHR ''?'' rest then 1 else 0) st"
  "parse_tag env CHR ''A'' rest arg st =
     converted (case arg of
                  Array _ \<Rightarrow> Inr (Some arg)
                | _ \<Rightarrow> if followed_by CHR ''?'' rest \<and> arg = Null then Inr None
                       else Inl (Throw ''expected an array''))
       Slot_array (if followed_by CHR ''?'' rest then 1 else 0) st"
  "parse_tag env CHR ''F'' rest arg st = case_F rest arg st"
  "parse_tag env CHR ''B'' rest arg st = case_B env rest arg st"
  "parse_tag env CHR ''C'' rest arg st =
     converted (if followed_by CHR ''?'' rest \<and> arg = Null then Inr None
                else (case gum_v8_cpu_context_get arg of
                        Inl f \<Rightarrow> Inl (Throw ''expected a CpuContext object'')
                      | Inr cpu_context \<Rightarrow> Inr (Some cpu_context)))
       Slot_cpu_context (if followed_by CHR ''?'' rest then 1 else 0) st"
  "parse_tag env CHR ''M'' rest arg st = case_M env arg st"
  by (simp_all add: parse_tag_def Let_def)

lemma parse_tag_default:
  "c \<notin> set ''iuqQzZntpXsSrRmVOAFBCM'' \<Longrightarrow> parse_tag env c rest arg st = (Some Abort, st, 0)"
  by (simp add: parse_tag_def Let_def)

lemma parse_inv_converted':
  "parse_inv h0 st \<Longrightarrow> parse_inv h0 (fst (snd (converted r mk n st)))"
  by (cases "converted r mk n st") (auto dest: parse_inv_converted)

lemma parse_inv_parse_tag':
  assumes inv: "parse_inv h0 st" and ok: "heap_ok h0"
  shows "parse_inv h0 (fst (snd (parse_tag env c rest arg st)))"
proof (cases "c \<in> set ''iuqQzZntpXsSrRmVOAFBCM''")
  case False
  then show ?thesis
    using inv by (simp add: parse_tag_default)
next
  case True
  note conv = parse_inv_converted' [OF inv]
  have s: "parse_inv h0 (fst (snd (case_s rest arg st)))"
    using parse_inv_case_s [of rest arg st _ _ _ h0] inv ok
    by (cases "case_s rest arg st") auto
  have R: "parse_inv h0 (fst (snd (case_R arg st)))"
    using parse_inv_case_R [of arg st _ _ _ h0] inv ok
    by (cases "case_R arg st") auto
  have F: "parse_inv h0 (fst (snd (case_F rest arg st)))"
    using parse_inv_case_F [of rest arg st _ _ _ h0] inv
    by (cases "case_F rest arg st") auto
  have B: "parse_inv h0 (fst (snd (case_B env rest arg st)))"
    using parse_inv_case_B [of env rest arg st _ _ _ h0] inv ok
    by (cases "case_B env rest arg st") auto
  have M: "parse_inv h0 (fst (snd (case_M env arg st)))"
    using parse_inv_case_M [of env arg st _ _ _ h0] inv ok
    by (cases "case_M env arg st") auto
  have "\<forall>x \<in> set ''iuqQzZntpXsSrRmVOAFBCM''.
      parse_inv h0 (fst (snd (parse_tag env x rest arg st)))"
    by (simp add: parse_tag_simps conv s R F B M)
  with True show ?thesis by blast
qed

lemma parse_inv_parse_tag:
  "parse_tag env c rest arg st = (f, st', k) \<Longrightarrow> parse_inv h0 st \<Longrightarrow> heap_ok h0 \<Longrightarrow>
     parse_inv h0 st'"
  using parse_inv_parse_tag' [of h0 st env c rest arg] by simp

lemma parse_inv_locals [simp]:
  "parse_inv h0 (st\<lparr>arg_index := i\<rparr>) = parse_inv h0 st"
  "parse_inv h0 (st\<lparr>is_required := b\<rparr>) = parse_inv h0 st"
  by (simp_all add: parse_inv_def)

lemma parse_inv_loop:
  "args_parse_loop env args t st = (f, st') \<Longrightarrow> parse_inv h0 st \<Longrightarrow> heap_ok h0 \<Longrightarrow>
     parse_inv h0 st'"
proof (induction env args t st rule: args_parse_loop.induct)
  case (1 env args st)
  then show ?case by simp
next
  case (2 env args c rest st)
  show ?case
  proof (cases "c = CHR ''|''")
    case True
    with 2 show ?thesis by simp
  next
    case bar: False
    show ?thesis
    proof (cases "arg_index st \<ge> length args \<or> args ! arg_index st = Undefined")
      case True
      with bar "2.prems" show ?thesis by (auto split: if_splits)
    next
      case False
      obtain g st1 n where tag: "parse_tag env c rest (args ! arg_index st) st = (g, st1, n)"
        by (cases "parse_tag env c rest (args ! arg_index st) st") auto
      have inv1: "parse_inv h0 st1"
        using parse_inv_parse_tag [OF tag "2.prems"(2,3)] .
      show ?thesis
      proof (cases g)
        case None
        have "args_parse_loop env args (drop n rest) (st1\<lparr>arg_index := Suc (arg_index st1)\<rparr>) =
            (f, st')"
          using bar False tag None "2.prems"(1) by simp
        moreover have "parse_inv h0 (st1\<lparr>arg_index := Suc (arg_index st1)\<rparr>)"
          using inv1 by simp
        ultimately show ?thesis
          using "2.IH"(2) [OF bar False tag [symmetric] None refl] "2.prems"(3) by blast
      next
        case (Some e)
        with bar False tag "2.prems" inv1 show ?thesis by auto
      qed
    qed
  qed
qed

lemma parse_inv_initial:
  "heap_ok h \<Longrightarrow>
     parse_inv h \<lparr>scope = scope_new, heap = h, slots = [], arg_index = 0, is_required = True\<rparr>"
  by (simp add: parse_inv_def scope_new_def staged_def staged_releases_def)

text \<open>
  C1: let \<^verbatim>\<open>_gum_v8_args_parse\<close> start on a heap where the allocator's guarantee holds.
  If it returns \<^verbatim>\<open>FALSE\<close>, then by the time it has returned the destructor calls made
  are exactly one call per staged string, range array, byte buffer and match pattern,
  each through the destructor of its kind (\<^verbatim>\<open>g_free\<close>, \<^verbatim>\<open>g_array_unref\<close>,
  \<^verbatim>\<open>g_bytes_unref\<close>, \<^verbatim>\<open>gum_match_pattern_unref\<close>) on an object of that kind, and the
  reference count at every address is what it was before the call: nothing staged is
  left allocated and nothing is released twice. If it returns \<^verbatim>\<open>TRUE\<close>, the scope is
  committed, no destructor has been called, and every staged reference is still held.
\<close>

theorem args_parse_scope_rollback:
  assumes "heap_ok h"
  shows
    "(\<forall>f. result (gum_v8_args_parse env args format h) = Some f \<and> returns_false f \<longrightarrow>
        released (final_heap (gum_v8_args_parse env args format h)) =
          released h @ staged_releases (final_scope (gum_v8_args_parse env args format h)) \<and>
        (\<forall>a. refcount (final_heap (gum_v8_args_parse env args format h)) a = refcount h a) \<and>
        (\<forall>(d, a) \<in> set (staged_releases (final_scope (gum_v8_args_parse env args format h))).
            \<exists>cell. cells (final_heap (gum_v8_args_parse env args format h)) a = Some cell \<and>
                   destructor_of cell = d)) \<and>
     (result (gum_v8_args_parse env args format h) = None \<longrightarrow>
        committed (final_scope (gum_v8_args_parse env args format h)) \<and>
        released (final_heap (gum_v8_args_parse env args format h)) = released h \<and>
        (\<forall>a. refcount (final_heap (gum_v8_args_parse env args format h)) a =
              refcount h a +
              int (count_list (staged (final_scope (gum_v8_args_parse env args format h))) a)))"
proof -
  define st0 where
    "st0 = \<lparr>scope = scope_new, heap = h, slots = [], arg_index = 0, is_required = True\<rparr>"
  obtain r st where loop: "args_parse_loop env args (c_str format) st0 = (r, st)"
    by (cases "args_parse_loop env args (c_str format) st0") auto
  have inv: "parse_inv h st"
    using parse_inv_loop [OF loop parse_inv_initial [OF assms, folded st0_def] assms] .
  then have i1: "\<not> committed (scope st)" and i2: "released (heap st) = released h"
    and i5: "\<And>x. refcount (heap st) x = refcount h x + int (count_list (staged (scope st)) x)"
    and i7: "\<forall>(d, x) \<in> set (staged_releases (scope st)).
      \<exists>cell. cells (heap st) x = Some cell \<and> destructor_of cell = d"
    by (simp_all add: parse_inv_def)
  show ?thesis
  proof (cases r)
    case None
    then have out: "gum_v8_args_parse env args format h =
        \<lparr>result = None, final_slots = slots st, final_scope = scope_commit (scope st),
         final_heap = heap st\<rparr>"
      using loop
      by (simp add: gum_v8_args_parse_def st0_def [symmetric] Let_def scope_commit_def
          scope_destructor_committed)
    show ?thesis
      using i2 i5 by (simp add: out scope_commit_def staged_def)
  next
    case (Some f)
    then have out: "gum_v8_args_parse env args format h =
        \<lparr>result = Some f, final_slots = slots st, final_scope = scope st,
         final_heap = (if returns_false f then scope_destructor (scope st) (heap st)
                       else heap st)\<rparr>"
      using loop by (simp add: gum_v8_args_parse_def st0_def [symmetric])
    show ?thesis
      using i2 i5 i7 scope_destructor_uncommitted [OF i1, of "heap st"]
      by (simp add: out)
  qed
qed

lemmas parse_eval =
  gum_v8_args_parse_def parse_tag_simps converted_def write_slots_def case_s_def case_R_def
  case_B_def case_M_def case_F_def followed_by_def scope_strdup_def heap_new_def scope_new_def
  scope_commit_def scope_destructor_def heap_release_def scope_add_array_def
  scope_add_bytes_def scope_add_match_pattern_def gum_match_pattern_ref_def c_str_def Let_def
  returns_false_def empty_heap_def staged_releases_def staged_def
  gum_v8_int_get_def double_ge_def double_le_def G_MININT_def G_MAXINT_def trunc_def
  gum_v8_bytes_get_def gum_v8_bytes_parse_def gum_v8_bytes_try_get_def

theorem args_parse_scope_rollback_witness:
  "heap_ok empty_heap \<and>
   result (gum_v8_args_parse
      \<lparr>engine = \<lparr>string_to_number = (\<lambda>s. NaN), object_to_number = (\<lambda>v. None)\<rparr>,
       match_pattern_compiles = (\<lambda>s. True)\<rparr>
      [String ''ab'', ArrayBuffer [1, 2], String ''x''] ''sBi'' empty_heap) =
     Some (Throw ''expected an integer'') \<and>
   returns_false (Throw ''expected an integer'') \<and>
   released (final_heap (gum_v8_args_parse
      \<lparr>engine = \<lparr>string_to_number = (\<lambda>s. NaN), object_to_number = (\<lambda>v. None)\<rparr>,
       match_pattern_compiles = (\<lambda>s. True)\<rparr>
      [String ''ab'', ArrayBuffer [1, 2], String ''x''] ''sBi'' empty_heap)) =
     [(G_free, 0), (G_bytes_unref, 1)] \<and>
   (\<forall>a. refcount (final_heap (gum_v8_args_parse
      \<lparr>engine = \<lparr>string_to_number = (\<lambda>s. NaN), object_to_number = (\<lambda>v. None)\<rparr>,
       match_pattern_compiles = (\<lambda>s. True)\<rparr>
      [String ''ab'', ArrayBuffer [1, 2], String ''x''] ''sBi'' empty_heap)) a = 0) \<and>
   result (gum_v8_args_parse
      \<lparr>engine = \<lparr>string_to_number = (\<lambda>s. NaN), object_to_number = (\<lambda>v. None)\<rparr>,
       match_pattern_compiles = (\<lambda>s. True)\<rparr>
      [String ''ab'', ArrayBuffer [1, 2]] ''sB'' empty_heap) = None \<and>
   released (final_heap (gum_v8_args_parse
      \<lparr>engine = \<lparr>string_to_number = (\<lambda>s. NaN), object_to_number = (\<lambda>v. None)\<rparr>,
       match_pattern_compiles = (\<lambda>s. True)\<rparr>
      [String ''ab'', ArrayBuffer [1, 2]] ''sB'' empty_heap)) = [] \<and>
   refcount (final_heap (gum_v8_args_parse
      \<lparr>engine = \<lparr>string_to_number = (\<lambda>s. NaN), object_to_number = (\<lambda>v. None)\<rparr>,
       match_pattern_compiles = (\<lambda>s. True)\<rparr>
      [String ''ab'', ArrayBuffer [1, 2]] ''sB'' empty_heap)) 1 = 1"
proof -
  define env where
    "env = \<lparr>engine = \<lparr>string_to_number = (\<lambda>s. NaN), object_to_number = (\<lambda>v :: v8_value. None)\<rparr>,
            match_pattern_compiles = (\<lambda>s :: string. True)\<rparr>"
  have ok: "heap_ok empty_heap"
    by (simp add: heap_ok_def empty_heap_def)
  have fails: "result (gum_v8_args_parse env
      [String ''ab'', ArrayBuffer [1, 2], String ''x''] ''sBi'' empty_heap) =
      Some (Throw ''expected an integer'')"
    by (simp add: parse_eval)
  have rf: "returns_false (Throw ''expected an integer'')"
    by (simp add: returns_false_def)
  have staged: "staged_releases (final_scope (gum_v8_args_parse env
      [String ''ab'', ArrayBuffer [1, 2], String ''x''] ''sBi'' empty_heap)) =
      [(G_free, 0), (G_bytes_unref, 1)]"
    by (simp add: parse_eval)
  have succeeds: "result (gum_v8_args_parse env
      [String ''ab'', ArrayBuffer [1, 2]] ''sB'' empty_heap) = None"
    by (simp add: parse_eval)
  have staged': "staged (final_scope (gum_v8_args_parse env
      [String ''ab'', ArrayBuffer [1, 2]] ''sB'' empty_heap)) = [0, 1]"
    by (simp add: parse_eval)
  have e: "released empty_heap = []" "refcount empty_heap a = 0" for a
    by (simp_all add: empty_heap_def)
  show ?thesis
    unfolding env_def [symmetric]
    using args_parse_scope_rollback
        [OF ok, of env "[String ''ab'', ArrayBuffer [1, 2], String ''x'']" "''sBi''"]
      args_parse_scope_rollback [OF ok, of env "[String ''ab'', ArrayBuffer [1, 2]]" "''sB''"]
    by (simp add: ok fails rf staged succeeds staged' e)
qed

section \<open>Missing arguments\<close>

lemma followed_by_append:
  "c \<noteq> m \<Longrightarrow> followed_by m (r @ c # rest) = followed_by m r"
  by (cases r) (simp_all add: followed_by_def)

lemma followed_by_nonempty: "followed_by m r \<Longrightarrow> r \<noteq> []"
  by (auto simp: followed_by_def)

lemma followed_by_length: "(if followed_by m r then 1 else 0) \<le> length r"
  by (cases r) (simp_all add: followed_by_def)

lemma tl_append_followed: "followed_by m r \<Longrightarrow> tl (r @ sfx) = tl r @ sfx"
  by (cases r) (simp_all add: followed_by_def)

lemma is_tag_not_modifier:
  "is_tag c \<Longrightarrow> c \<noteq> CHR ''~'' \<and> c \<noteq> CHR ''?'' \<and> c \<noteq> CHR ''*'' \<and> c \<noteq> CHR ''{'' \<and>
     c \<noteq> CHR ''|''"
  by (auto simp: is_tag_def)

lemma index_of_append: "x \<in> set t \<Longrightarrow> index_of x (t @ sfx) = index_of x t"
  by (induction t) (auto simp: index_of_def)

lemma index_of_less: "(index_of x t < length t) = (x \<in> set t)"
  by (induction t) (auto simp: index_of_def)

lemma index_of_append_ge: "x \<notin> set t \<Longrightarrow> index_of x (t @ sfx) \<ge> length t"
  by (induction t) (auto simp: index_of_def)

lemma callbacks_loop_append:
  "callbacks_loop ap cb t = (None, new, n) \<Longrightarrow>
     callbacks_loop ap cb (t @ sfx) = (None, new, n) \<and> n \<le> length t"
proof (induction ap cb t arbitrary: new n rule: callbacks_loop.induct)
  case (1 ap cb t)
  have brace: "CHR ''}'' \<in> set t"
    using "1.prems" by (subst (asm) callbacks_loop.simps) (auto split: if_splits)
  define e where "e = index_of CHR ''}'' t"
  define nx where "nx = index_of CHR '','' t"
  define te where "te = (if nx < length t \<and> nx < e then nx else e)"
  have e_less: "e < length t"
    using brace by (simp add: e_def index_of_less)
  have te_less: "te < length t"
    using e_less by (simp add: te_def)
  have e': "index_of CHR ''}'' (t @ sfx) = e"
    using brace by (simp add: e_def index_of_append)
  have te': "(if index_of CHR '','' (t @ sfx) < length (t @ sfx) \<and>
                index_of CHR '','' (t @ sfx) < e then index_of CHR '','' (t @ sfx) else e) = te"
  proof (cases "CHR '','' \<in> set t")
    case True
    then have "index_of CHR '','' (t @ sfx) = nx" "nx < length t"
      by (simp_all add: nx_def index_of_append index_of_less)
    then show ?thesis by (simp add: te_def)
  next
    case False
    then have "index_of CHR '','' (t @ sfx) \<ge> length t" "\<not> nx < length t"
      by (simp_all add: index_of_append_ge nx_def index_of_less)
    with e_less show ?thesis by (simp add: te_def)
  qed
  have ok: "\<not> (te = 0 \<or> te > 64 \<or> (te = 64 \<and> t ! 63 \<noteq> CHR ''?''))"
    using "1.prems" brace
    by (subst (asm) callbacks_loop.simps)
      (auto simp: Let_def e_def [symmetric] nx_def [symmetric] te_def [symmetric]
        split: if_splits)
  define opt where "opt = (t ! (te - 1) = CHR ''?'')"
  define name where "name = take (if opt then te - 1 else te) t"
  have nth63: "te = 64 \<Longrightarrow> (t @ sfx) ! 63 = t ! 63"
    using te_less by (simp add: nth_append)
  have "te - 1 < length t"
    using te_less by simp
  then have opt': "((t @ sfx) ! (te - 1) = CHR ''?'') = opt"
    by (simp add: opt_def nth_append)
  have name': "take (if opt then te - 1 else te) (t @ sfx) = name"
    using te_less by (auto simp: name_def)
  have unfold: "callbacks_loop ap cb t =
      (case Get cb name of
         None \<Rightarrow> (Some Script_exception, [], 0)
       | Some val \<Rightarrow>
           (case callback_slots ap opt (val = Undefined) ''expected a callback value'' val of
              Inl f \<Rightarrow> (Some f, [], 0)
            | Inr new \<Rightarrow>
                if te = e then (None, new, te + 1)
                else (case callbacks_loop ap cb (drop (te + 1) t) of
                        (f, later, n) \<Rightarrow> (f, new @ later, te + 1 + n))))"
    apply (subst callbacks_loop.simps)
    apply (simp only: Let_def brace not_True_eq_False not_not if_False
        e_def [symmetric] nx_def [symmetric])
    apply (simp only: te_def [symmetric])
    apply (simp only: ok if_False opt_def [symmetric])
    apply (simp only: name_def [symmetric])
    done
  have brace': "CHR ''}'' \<in> set (t @ sfx)"
    using brace by simp
  have drop': "drop (te + 1) (t @ sfx) = drop (te + 1) t @ sfx"
    using te_less by simp
  have ok': "\<not> (te = 0 \<or> te > 64 \<or> (te = 64 \<and> (t @ sfx) ! 63 \<noteq> CHR ''?''))"
    using ok nth63 by auto
  have unfold': "callbacks_loop ap cb (t @ sfx) =
      (case Get cb name of
         None \<Rightarrow> (Some Script_exception, [], 0)
       | Some val \<Rightarrow>
           (case callback_slots ap opt (val = Undefined) ''expected a callback value'' val of
              Inl f \<Rightarrow> (Some f, [], 0)
            | Inr new \<Rightarrow>
                if te = e then (None, new, te + 1)
                else (case callbacks_loop ap cb (drop (te + 1) t @ sfx) of
                        (f, later, n) \<Rightarrow> (f, new @ later, te + 1 + n))))"
    apply (subst callbacks_loop.simps)
    apply (simp only: Let_def brace' not_True_eq_False not_not if_False e')
    apply (simp only: te')
    apply (simp only: ok' if_False opt')
    apply (simp only: name' drop')
    done
  from "1.prems" obtain val where get: "Get cb name = Some val"
    by (cases "Get cb name") (auto simp: unfold)
  from "1.prems" get obtain first where
    cs: "callback_slots ap opt (val = Undefined) ''expected a callback value'' val = Inr first"
    by (cases "callback_slots ap opt (val = Undefined) ''expected a callback value'' val")
      (auto simp: unfold)
  show ?case
  proof (cases "te = e")
    case True
    with "1.prems" get cs te_less show ?thesis
      by (auto simp: unfold unfold')
  next
    case False
    obtain f later k where rec: "callbacks_loop ap cb (drop (te + 1) t) = (f, later, k)"
      by (cases "callbacks_loop ap cb (drop (te + 1) t)") auto
    with "1.prems" get cs False have f: "f = None" and new: "new = first @ later"
      and n: "n = te + 1 + k"
      by (auto simp: unfold)
    have "callbacks_loop ap cb (drop (te + 1) t @ sfx) = (None, later, k) \<and>
        k \<le> length (drop (te + 1) t)"
      using "1.IH" [of nx e te te opt name val first later k] brace ok get cs False rec f
      by (simp add: nx_def e_def te_def opt_def name_def)
    with get cs False new n te_less show ?thesis
      by (auto simp: unfold')
  qed
qed

lemma case_s_append:
  "is_tag c \<Longrightarrow> case_s (r @ c # rest) arg st = case_s r arg st"
  using is_tag_not_modifier [of c] by (simp add: case_s_def followed_by_append)

lemma case_B_append:
  assumes "is_tag c"
  shows "case_B env (r @ c # rest) arg st = case_B env r arg st"
proof (cases "followed_by CHR ''~'' r")
  case True
  then have "tl (r @ c # rest) = tl r @ c # rest"
    by (rule tl_append_followed)
  with True show ?thesis
    using is_tag_not_modifier [OF assms] by (simp add: case_B_def followed_by_append)
next
  case False
  then show ?thesis
    using is_tag_not_modifier [OF assms] by (simp add: case_B_def followed_by_append)
qed

lemma case_F_append:
  assumes ok: "case_F r arg st = (None, st', n)" and tag: "is_tag c"
  shows "case_F (r @ c # rest) arg st = (None, st', n)"
proof -
  note nm = is_tag_not_modifier [OF tag]
  define ap where "ap = followed_by CHR ''*'' r"
  define r1 where "r1 = (if ap then tl r else r)"
  have r1: "(if ap then tl (r @ c # rest) else r @ c # rest) = r1 @ c # rest"
    using tl_append_followed [of "CHR ''*''" r "c # rest"] by (simp add: r1_def ap_def)
  have a1: "followed_by CHR ''*'' (r @ c # rest) = ap"
    using nm by (simp add: followed_by_append ap_def)
  have a2: "followed_by CHR ''{'' (r1 @ c # rest) = followed_by CHR ''{'' r1"
    using nm by (simp add: followed_by_append)
  have a3: "followed_by CHR ''?'' (r1 @ c # rest) = followed_by CHR ''?'' r1"
    using nm by (simp add: followed_by_append)
  have F: "case_F r arg st =
     (if followed_by CHR ''{'' r1 then
        (if \<not> IsObject arg
         then (Some (Throw ''expected an object containing callbacks''), st,
               (if ap then 1 else 0) + 1)
         else (case callbacks_loop ap arg (tl r1) of
                 (f, new, n) \<Rightarrow> (f, write_slots new st, (if ap then 1 else 0) + 1 + n)))
      else
        (case callback_slots ap (followed_by CHR ''?'' r1) (arg = Null)
                ''expected a function'' arg of
           Inl f \<Rightarrow> (Some f, st, (if ap then 1 else 0) + (if followed_by CHR ''?'' r1 then 1 else 0))
         | Inr new \<Rightarrow>
             (None, write_slots new st,
              (if ap then 1 else 0) + (if followed_by CHR ''?'' r1 then 1 else 0))))"
    by (simp add: case_F_def Let_def ap_def r1_def)
  have F': "case_F (r @ c # rest) arg st =
     (if followed_by CHR ''{'' r1 then
        (if \<not> IsObject arg
         then (Some (Throw ''expected an object containing callbacks''), st,
               (if ap then 1 else 0) + 1)
         else (case callbacks_loop ap arg (tl (r1 @ c # rest)) of
                 (f, new, n) \<Rightarrow> (f, write_slots new st, (if ap then 1 else 0) + 1 + n)))
      else
        (case callback_slots ap (followed_by CHR ''?'' r1) (arg = Null)
                ''expected a function'' arg of
           Inl f \<Rightarrow> (Some f, st, (if ap then 1 else 0) + (if followed_by CHR ''?'' r1 then 1 else 0))
         | Inr new \<Rightarrow>
             (None, write_slots new st,
              (if ap then 1 else 0) + (if followed_by CHR ''?'' r1 then 1 else 0))))"
    unfolding case_F_def Let_def by (simp only: a1 r1 a2 a3)
  show ?thesis
  proof (cases "followed_by CHR ''{'' r1 \<and> IsObject arg")
    case False
    have "case_F (r @ c # rest) arg st = case_F r arg st"
    proof (cases "followed_by CHR ''{'' r1")
      case True
      with False have "\<not> IsObject arg" by simp
      with True show ?thesis by (simp add: F F')
    next
      case False
      then show ?thesis by (simp add: F F')
    qed
    with ok show ?thesis by simp
  next
    case True
    then have tl': "tl (r1 @ c # rest) = tl r1 @ c # rest"
      using tl_append_followed by blast
    obtain f new k where loop: "callbacks_loop ap arg (tl r1) = (f, new, k)"
      by (cases "callbacks_loop ap arg (tl r1)") auto
    with ok True have "f = None"
      by (simp add: F)
    with loop have "callbacks_loop ap arg (tl r1 @ c # rest) = (None, new, k)"
      using callbacks_loop_append by blast
    with ok True loop show ?thesis
      by (simp add: F F' tl')
  qed
qed

lemma parse_tag_append_other:
  assumes tag: "is_tag c" and notF: "c' \<noteq> CHR ''F''"
  shows "parse_tag env c' (r @ c # rest) arg st = parse_tag env c' r arg st"
proof (cases "c' \<in> set ''iuqQzZntpXsSrRmVOABCM''")
  case False
  with notF have "c' \<notin> set ''iuqQzZntpXsSrRmVOAFBCM''" by simp
  then show ?thesis by (simp add: parse_tag_default)
next
  case True
  note nm = is_tag_not_modifier [OF tag]
  have "\<forall>x \<in> set ''iuqQzZntpXsSrRmVOABCM''.
      parse_tag env x (r @ c # rest) arg st = parse_tag env x r arg st"
    using nm by (simp add: parse_tag_simps followed_by_append case_s_append [OF tag]
        case_B_append [OF tag])
  with True show ?thesis by blast
qed

lemma converted_consumed: "converted x mk k st = (f, st', n) \<Longrightarrow> n = k"
  by (auto simp: converted_def split: sum.splits)

lemma case_s_consumed: "case_s r arg st = (f, st', n) \<Longrightarrow> n \<le> length r"
  using followed_by_length [of "CHR ''?''" r]
  by (auto simp: case_s_def Let_def scope_strdup_def split: if_splits v8_value.splits prod.splits)

lemma case_R_consumed: "case_R arg st = (f, st', n) \<Longrightarrow> n = 0"
  by (auto simp: case_R_def Let_def split: sum.splits prod.splits)

lemma case_M_consumed: "case_M env arg st = (f, st', n) \<Longrightarrow> n = 0"
  by (auto simp: case_M_def Let_def split: v8_value.splits option.splits prod.splits if_splits)

lemma case_B_consumed:
  assumes "case_B env r arg st = (f, st', n)"
  shows "n \<le> length r"
proof -
  have n: "n = (if followed_by CHR ''~'' r then 1 else 0) +
      (if followed_by CHR ''?'' (if followed_by CHR ''~'' r then tl r else r) then 1 else 0)"
    using assms
    by (auto simp: case_B_def Let_def split: if_splits sum.splits prod.splits)
  show ?thesis
    unfolding n by (cases r; cases "tl r") (auto simp: followed_by_def)
qed

lemma case_F_consumed:
  assumes "case_F r arg st = (None, st', n)"
  shows "n \<le> length r"
proof -
  define ap where "ap = followed_by CHR ''*'' r"
  define r1 where "r1 = (if ap then tl r else r)"
  have len: "(if ap then 1 else 0) + length r1 = length r"
    by (cases r) (auto simp: r1_def ap_def followed_by_def)
  show ?thesis
  proof (cases "followed_by CHR ''{'' r1")
    case True
    then have r1: "r1 \<noteq> []" by (rule followed_by_nonempty)
    obtain f new k where loop: "callbacks_loop ap arg (tl r1) = (f, new, k)"
      by (cases "callbacks_loop ap arg (tl r1)") auto
    with assms True have "f = None" and n: "n = (if ap then 1 else 0) + 1 + k"
      by (auto simp: case_F_def Let_def ap_def r1_def split: if_splits)
    with loop have "k \<le> length (tl r1)"
      using callbacks_loop_append [of ap arg "tl r1" new k "[]"] by simp
    with r1 len n show ?thesis
      by (cases r1) auto
  next
    case False
    with assms have "n = (if ap then 1 else 0) + (if followed_by CHR ''?'' r1 then 1 else 0)"
      by (auto simp: case_F_def Let_def ap_def r1_def split: if_splits sum.splits)
    with len followed_by_length [of "CHR ''?''" r1] show ?thesis
      by (auto split: if_splits)
  qed
qed

lemma parse_tag_consumed:
  assumes "parse_tag env c' r arg st = (None, st', n)"
  shows "n \<le> length r"
proof (cases "c' \<in> set ''iuqQzZntpXsSrRmVOAFBCM''")
  case False
  with assms show ?thesis by (simp add: parse_tag_default)
next
  case True
  have "\<forall>x \<in> set ''iuqQzZntpXsSrRmVOAFBCM''.
      parse_tag env x r arg st = (None, st', n) \<longrightarrow> n \<le> length r"
    using followed_by_length [of "CHR ''~''" r] followed_by_length [of "CHR ''?''" r]
    by (auto simp: parse_tag_simps dest!: converted_consumed case_s_consumed case_R_consumed
        case_M_consumed case_B_consumed case_F_consumed split: if_splits)
  with True assms show ?thesis by blast
qed

lemma parse_tag_append:
  assumes "parse_tag env c' r arg st = (None, st', n)" and "is_tag c"
  shows "parse_tag env c' (r @ c # rest) arg st = (None, st', n)"
proof (cases "c' = CHR ''F''")
  case True
  with assms show ?thesis
    by (simp add: parse_tag_simps case_F_append)
next
  case False
  with assms show ?thesis
    by (simp add: parse_tag_append_other)
qed

lemma converted_locals:
  "converted x mk k st = (f, st', n) \<Longrightarrow>
     is_required st' = is_required st \<and> arg_index st' = arg_index st"
  by (auto simp: converted_def write_slots_def split: sum.splits)

lemma case_s_locals:
  "case_s r arg st = (f, st', n) \<Longrightarrow>
     is_required st' = is_required st \<and> arg_index st' = arg_index st"
  by (auto simp: case_s_def Let_def write_slots_def split: if_splits v8_value.splits prod.splits)

lemma case_R_locals:
  "case_R arg st = (f, st', n) \<Longrightarrow>
     is_required st' = is_required st \<and> arg_index st' = arg_index st"
  by (auto simp: case_R_def Let_def write_slots_def split: sum.splits prod.splits)

lemma case_B_locals:
  "case_B env r arg st = (f, st', n) \<Longrightarrow>
     is_required st' = is_required st \<and> arg_index st' = arg_index st"
  by (auto simp: case_B_def Let_def write_slots_def split: if_splits sum.splits prod.splits)

lemma case_M_locals:
  "case_M env arg st = (f, st', n) \<Longrightarrow>
     is_required st' = is_required st \<and> arg_index st' = arg_index st"
  by (auto simp: case_M_def Let_def write_slots_def
      split: v8_value.splits option.splits prod.splits if_splits)

lemma case_F_locals:
  "case_F r arg st = (f, st', n) \<Longrightarrow>
     is_required st' = is_required st \<and> arg_index st' = arg_index st"
  by (auto simp: case_F_def Let_def write_slots_def split: if_splits sum.splits prod.splits)

lemma parse_tag_locals:
  assumes "parse_tag env c r arg st = (f, st', n)"
  shows "is_required st' = is_required st \<and> arg_index st' = arg_index st"
proof (cases "c \<in> set ''iuqQzZntpXsSrRmVOAFBCM''")
  case False
  with assms show ?thesis by (auto simp: parse_tag_default)
next
  case True
  have "\<forall>x \<in> set ''iuqQzZntpXsSrRmVOAFBCM''.
      parse_tag env x r arg st = (f, st', n) \<longrightarrow>
      is_required st' = is_required st \<and> arg_index st' = arg_index st"
    by (simp add: parse_tag_simps) (blast dest: converted_locals case_s_locals case_R_locals
        case_B_locals case_M_locals case_F_locals)
  with True assms show ?thesis by blast
qed

lemma loop_is_required:
  "args_parse_loop env args t st = (f, st') \<Longrightarrow> is_required st' \<Longrightarrow> is_required st"
proof (induction env args t st rule: args_parse_loop.induct)
  case (1 env args st)
  then show ?case by simp
next
  case (2 env args c rest st)
  show ?case
  proof (cases "c = CHR ''|''")
    case True
    with 2 show ?thesis by simp
  next
    case bar: False
    show ?thesis
    proof (cases "arg_index st \<ge> length args \<or> args ! arg_index st = Undefined")
      case True
      with bar "2.prems" show ?thesis by (auto split: if_splits)
    next
      case False
      obtain g st1 n where tag: "parse_tag env c rest (args ! arg_index st) st = (g, st1, n)"
        by (cases "parse_tag env c rest (args ! arg_index st) st") auto
      note loc = parse_tag_locals [OF tag]
      show ?thesis
      proof (cases g)
        case None
        have "args_parse_loop env args (drop n rest) (st1\<lparr>arg_index := Suc (arg_index st1)\<rparr>) =
            (f, st')"
          using bar False tag None "2.prems"(1) by simp
        then have "is_required (st1\<lparr>arg_index := Suc (arg_index st1)\<rparr>)"
          using "2.IH"(2) [OF bar False tag [symmetric] None refl] "2.prems"(2) by blast
        with loc show ?thesis by simp
      next
        case (Some e)
        with bar False tag "2.prems" loc show ?thesis by auto
      qed
    qed
  qed
qed

lemma loop_append:
  "args_parse_loop env args pre st0 = (None, st1) \<Longrightarrow> is_required st1 \<Longrightarrow> is_tag c \<Longrightarrow>
     args_parse_loop env args (pre @ c # rest) st0 = args_parse_loop env args (c # rest) st1"
proof (induction env args pre st0 rule: args_parse_loop.induct)
  case (1 env args st)
  then show ?case by simp
next
  case (2 env args c' r st)
  have req: "is_required st"
    using loop_is_required [OF "2.prems"(1,2)] .
  show ?case
  proof (cases "c' = CHR ''|''")
    case True
    with "2.prems"(1) have "args_parse_loop env args r (st\<lparr>is_required := False\<rparr>) = (None, st1)"
      by simp
    from loop_is_required [OF this "2.prems"(2)] show ?thesis by simp
  next
    case bar: False
    show ?thesis
    proof (cases "arg_index st \<ge> length args \<or> args ! arg_index st = Undefined")
      case True
      with bar "2.prems"(1) req show ?thesis by simp
    next
      case False
      obtain g st' n where tag: "parse_tag env c' r (args ! arg_index st) st = (g, st', n)"
        by (cases "parse_tag env c' r (args ! arg_index st) st") auto
      with bar False "2.prems"(1) have g: "g = None"
        by (cases g) auto
      have rec: "args_parse_loop env args (drop n r) (st'\<lparr>arg_index := Suc (arg_index st')\<rparr>) =
          (None, st1)"
        using bar False tag g "2.prems"(1) by simp
      have n: "n \<le> length r"
        using parse_tag_consumed tag g by blast
      have tag': "parse_tag env c' (r @ c # rest) (args ! arg_index st) st = (None, st', n)"
        using parse_tag_append tag g "2.prems"(3) by blast
      have "args_parse_loop env args (drop n r @ c # rest)
              (st'\<lparr>arg_index := Suc (arg_index st')\<rparr>) =
            args_parse_loop env args (c # rest) st1"
        using "2.IH"(2) [OF bar False tag [symmetric] g refl rec "2.prems"(2,3)] .
      with bar False tag' n show ?thesis by simp
    qed
  qed
qed

text \<open>
  C2, as stated, fails: with the format \<^verbatim>\<open>"ii"\<close> and the single argument 1, the first
  required tag without an argument is the second one; the parse fails with the
  missing-argument exception, and the slot of the first tag has been written.
\<close>

theorem args_parse_missing_argument_slot_written:
  "\<forall>env h.
     result (gum_v8_args_parse env [Number (Finite 1)] ''ii'' h) =
       Some (Throw ''missing argument'') \<and>
     final_slots (gum_v8_args_parse env [Number (Finite 1)] ''ii'' h) = [Slot_int 1]"
  by (simp add: parse_eval)

text \<open>
  C2, amended: let the tags before tag N of the format all be required and all convert
  their arguments, and let the argument of tag N be absent or undefined. Then the parse
  fails with an exception of kind MissingArgument, and the output slots written when
  it returns are exactly those the tags before N wrote: no slot of tag N or of a later
  tag has been written. Here \<open>pre\<close> is the format up to tag N, \<open>c\<close> is tag N, and \<open>st\<close>
  is the state the loop reaches at the end of \<open>pre\<close>.
\<close>

theorem args_parse_missing_argument:
  assumes "args_parse_loop env args pre
             \<lparr>scope = scope_new, heap = h, slots = [], arg_index = 0, is_required = True\<rparr> =
           (None, st)"
    and "is_required st"
    and "arg_index st \<ge> length args \<or> args ! arg_index st = Undefined"
    and "is_tag c"
    and "CHR 0x00 \<notin> set (pre @ c # rest)"
  shows "result (gum_v8_args_parse env args (pre @ c # rest) h) =
           Some (Throw ''missing argument'') \<and>
         error_kind_of ''missing argument'' = Some MissingArgument \<and>
         final_slots (gum_v8_args_parse env args (pre @ c # rest) h) = slots st"
proof -
  have bar: "c \<noteq> CHR ''|''"
    using is_tag_not_modifier [OF assms(4)] by simp
  have "args_parse_loop env args (pre @ c # rest)
          \<lparr>scope = scope_new, heap = h, slots = [], arg_index = 0, is_required = True\<rparr> =
        args_parse_loop env args (c # rest) st"
    using loop_append [OF assms(1,2,4)] .
  also have "\<dots> = (Some (Throw ''missing argument''), st)"
    using bar assms(2,3) by simp
  finally show ?thesis
    by (simp add: gum_v8_args_parse_def c_str_no_nul [OF assms(5)] error_kind_of_def)
qed

theorem args_parse_missing_argument_witness:
  "args_parse_loop
     \<lparr>engine = \<lparr>string_to_number = (\<lambda>s. NaN), object_to_number = (\<lambda>v. None)\<rparr>,
      match_pattern_compiles = (\<lambda>s. True)\<rparr>
     [Number (Finite 5), Undefined] ''i''
     \<lparr>scope = scope_new, heap = empty_heap, slots = [], arg_index = 0, is_required = True\<rparr> =
     (None, \<lparr>scope = scope_new, heap = empty_heap, slots = [Slot_int 5], arg_index = 1,
             is_required = True\<rparr>) \<and>
   [Number (Finite 5), Undefined] ! 1 = Undefined \<and>
   is_tag CHR ''q'' \<and>
   CHR 0x00 \<notin> set ''iq~'' \<and>
   result (gum_v8_args_parse
     \<lparr>engine = \<lparr>string_to_number = (\<lambda>s. NaN), object_to_number = (\<lambda>v. None)\<rparr>,
      match_pattern_compiles = (\<lambda>s. True)\<rparr>
     [Number (Finite 5), Undefined] ''iq~'' empty_heap) = Some (Throw ''missing argument'') \<and>
   final_slots (gum_v8_args_parse
     \<lparr>engine = \<lparr>string_to_number = (\<lambda>s. NaN), object_to_number = (\<lambda>v. None)\<rparr>,
      match_pattern_compiles = (\<lambda>s. True)\<rparr>
     [Number (Finite 5), Undefined] ''iq~'' empty_heap) = [Slot_int 5] \<and>
   final_slots (gum_v8_args_parse
     \<lparr>engine = \<lparr>string_to_number = (\<lambda>s. NaN), object_to_number = (\<lambda>v. None)\<rparr>,
      match_pattern_compiles = (\<lambda>s. True)\<rparr>
     [] ''s'' empty_heap) = []"
proof -
  define env where
    "env = \<lparr>engine = \<lparr>string_to_number = (\<lambda>s. NaN), object_to_number = (\<lambda>v :: v8_value. None)\<rparr>,
            match_pattern_compiles = (\<lambda>s :: string. True)\<rparr>"
  define st where
    "st = \<lparr>scope = scope_new, heap = empty_heap, slots = [Slot_int 5], arg_index = 1,
           is_required = True\<rparr>"
  have pre: "args_parse_loop env [Number (Finite 5), Undefined] ''i''
     \<lparr>scope = scope_new, heap = empty_heap, slots = [], arg_index = 0, is_required = True\<rparr> =
     (None, st)"
    by (simp add: st_def parse_eval)
  have req: "is_required st" and missing: "arg_index st \<ge> length [Number (Finite 5), Undefined] \<or>
      [Number (Finite 5), Undefined] ! arg_index st = Undefined"
    by (simp_all add: st_def)
  have tag: "is_tag CHR ''q''" "is_tag CHR ''s''"
    by (simp_all add: is_tag_def)
  have nul: "CHR 0x00 \<notin> set (''i'' @ CHR ''q'' # ''~'')"
    by simp
  have first: "args_parse_loop env [] []
     \<lparr>scope = scope_new, heap = empty_heap, slots = [], arg_index = 0, is_required = True\<rparr> =
     (None, \<lparr>scope = scope_new, heap = empty_heap, slots = [], arg_index = 0,
             is_required = True\<rparr>)"
    by simp
  have a: "result (gum_v8_args_parse env [Number (Finite 5), Undefined] ''iq~'' empty_heap) =
      Some (Throw ''missing argument'') \<and>
    final_slots (gum_v8_args_parse env [Number (Finite 5), Undefined] ''iq~'' empty_heap) =
      [Slot_int 5]"
    using args_parse_missing_argument [OF pre req missing tag(1) nul]
    by (simp add: st_def)
  have b: "final_slots (gum_v8_args_parse env [] ''s'' empty_heap) = []"
    using args_parse_missing_argument [OF first _ _ tag(2), of "[]"]
    by simp
  show ?thesis
    unfolding env_def [symmetric] st_def [symmetric]
    using pre tag(1) a b by simp
qed

end
